theory Spec2Isabelle
  imports Main "HOL-Library.Word" "HOL-Library.AList" "HOL-Library.List_Lexorder"
begin

section \<open>Python values used by the Autocrypt code\<close>

text \<open>
  The sources are Python with \<open>six\<close> compatibility code; the model follows Python 3.
  A text string is a \<open>string\<close> whose characters are code points below 256, a byte
  string is a list of 8-bit words. A call either returns a value (\<open>Inr\<close>) or raises
  (\<open>Inl\<close>).
\<close>

datatype pyexc =
  IndexError | KeyError | TypeError | ValueError | AssertionError | BinasciiError | OtherError string

type_synonym byte = "8 word"

type_synonym bytes = "byte list"

subsection \<open>String methods\<close>

text \<open>\<open>str.isspace\<close> for one character, on the code points below 256.\<close>

definition py_isspace :: "char \<Rightarrow> bool" where
  "py_isspace c =
     (let n = (of_char c :: nat)
      in (9 \<le> n \<and> n \<le> 13) \<or> (28 \<le> n \<and> n \<le> 32) \<or> n = 133 \<or> n = 160)"

definition py_lstrip :: "string \<Rightarrow> string" where
  "py_lstrip s = dropWhile py_isspace s"

definition py_rstrip :: "string \<Rightarrow> string" where
  "py_rstrip s = rev (dropWhile py_isspace (rev s))"

text \<open>\<open>s.strip()\<close>\<close>

definition py_strip :: "string \<Rightarrow> string" where
  "py_strip s = py_lstrip (py_rstrip s)"

text \<open>\<open>s.split(sep)\<close> for a separator of one character: never an empty list.\<close>

fun py_split :: "char \<Rightarrow> string \<Rightarrow> string list" where
  "py_split sep [] = [[]]"
| "py_split sep (c # cs) =
     (if c = sep then [] # py_split sep cs
      else (case py_split sep cs of
              [] \<Rightarrow> [[c]]
            | w # ws \<Rightarrow> (c # w) # ws))"

text \<open>\<open>s.split(sep, 1)\<close>: one piece when \<open>sep\<close> does not occur, two otherwise.\<close>

definition py_split1 :: "char \<Rightarrow> string \<Rightarrow> string list" where
  "py_split1 sep s =
     (if sep \<in> set s
      then [takeWhile (\<lambda>c. c \<noteq> sep) s, tl (dropWhile (\<lambda>c. c \<noteq> sep) s)]
      else [s])"

text \<open>\<open>s.split()\<close>: the maximal runs of non-whitespace characters; \<open>w\<close> is the
  run being collected.\<close>

fun split_ws :: "string \<Rightarrow> string \<Rightarrow> string list" where
  "split_ws w [] = (if w = [] then [] else [w])"
| "split_ws w (c # cs) =
     (if py_isspace c
      then (if w = [] then split_ws [] cs else w # split_ws [] cs)
      else split_ws (w @ [c]) cs)"

definition py_split_ws :: "string \<Rightarrow> string list" where
  "py_split_ws s = split_ws [] s"

text \<open>\<open>sep.join(l)\<close>\<close>

fun py_join :: "string \<Rightarrow> string list \<Rightarrow> string" where
  "py_join sep [] = []"
| "py_join sep [x] = x"
| "py_join sep (x # y # ys) = x @ sep @ py_join sep (y # ys)"

subsection \<open>The standard library's base64 codec\<close>

text \<open>
  \<open>base64.b64encode\<close> and \<open>base64.b64decode\<close> belong to the standard library, not to
  the repository. They are written out after CPython's \<open>binascii\<close> module, so that the
  header codec can be run: \<open>b2a_base64\<close> without the trailing newline, and
  \<open>a2b_base64\<close> in its default, non-strict mode, which skips every character
  outside the alphabet. The shifts and masks of the C code are written with
  multiplication, \<open>div\<close> and \<open>mod\<close> on the six-bit values.
\<close>

definition b64_alphabet :: string where
  "b64_alphabet = ''ABCDEFGHIJKLMNOPQRSTUVWXYZabcdefghijklmnopqrstuvwxyz0123456789+/''"

definition table_b2a_base64 :: "nat \<Rightarrow> char" where
  "table_b2a_base64 i = b64_alphabet ! i"

fun index_of :: "'a list \<Rightarrow> 'a \<Rightarrow> nat option" where
  "index_of [] y = None"
| "index_of (x # xs) y = (if x = y then Some 0 else map_option Suc (index_of xs y))"

definition table_a2b_base64 :: "char \<Rightarrow> nat option" where
  "table_a2b_base64 c = index_of b64_alphabet c"

fun b2a_base64 :: "bytes \<Rightarrow> string" where
  "b2a_base64 [] = []"
| "b2a_base64 [a] =
     [table_b2a_base64 (unat a div 4), table_b2a_base64 ((unat a mod 4) * 16),
      CHR ''='', CHR ''='']"
| "b2a_base64 [a, b] =
     [table_b2a_base64 (unat a div 4),
      table_b2a_base64 ((unat a mod 4) * 16 + unat b div 16),
      table_b2a_base64 ((unat b mod 16) * 4), CHR ''='']"
| "b2a_base64 (a # b # c # rest) =
     [table_b2a_base64 (unat a div 4),
      table_b2a_base64 ((unat a mod 4) * 16 + unat b div 16),
      table_b2a_base64 ((unat b mod 16) * 4 + unat c div 64),
      table_b2a_base64 (unat c mod 64)] @ b2a_base64 rest"

definition b64encode :: "bytes \<Rightarrow> string" where
  "b64encode s = b2a_base64 s"

text \<open>The decoding loop: \<open>quad_pos\<close>, \<open>leftchar\<close> and \<open>pads\<close> are the C variables,
  \<open>out\<close> the bytes written so far. \<open>None\<close> is \<open>binascii.Error\<close>.\<close>

fun a2b_loop :: "nat \<Rightarrow> nat \<Rightarrow> nat \<Rightarrow> bytes \<Rightarrow> string \<Rightarrow> bytes option" where
  "a2b_loop quad_pos leftchar pads out [] = (if quad_pos \<noteq> 0 then None else Some out)"
| "a2b_loop quad_pos leftchar pads out (c # cs) =
     (if c = CHR ''='' then
        (if 2 \<le> quad_pos \<and> 4 \<le> quad_pos + (pads + 1) then Some out
         else a2b_loop quad_pos leftchar (if 2 \<le> quad_pos then pads + 1 else pads) out cs)
      else
        (case table_a2b_base64 c of
           None \<Rightarrow> a2b_loop quad_pos leftchar pads out cs
         | Some v \<Rightarrow>
             (if quad_pos = 0 then a2b_loop 1 v 0 out cs
              else if quad_pos = 1 then
                a2b_loop 2 (v mod 16) 0 (out @ [of_nat (leftchar * 4 + v div 16)]) cs
              else if quad_pos = 2 then
                a2b_loop 3 (v mod 4) 0 (out @ [of_nat (leftchar * 16 + v div 4)]) cs
              else a2b_loop 0 0 0 (out @ [of_nat (leftchar * 64 + v)]) cs)))"

definition a2b_base64 :: "string \<Rightarrow> bytes option" where
  "a2b_base64 s = a2b_loop 0 0 0 [] s"

text \<open>\<open>base64.b64decode(s)\<close> for a text string: encoding it as ASCII raises
  \<open>ValueError\<close> when a character is not ASCII. \<open>None\<close> is any exception.\<close>

definition b64decode :: "string \<Rightarrow> bytes option" where
  "b64decode s =
     (if list_ex (\<lambda>c. 128 \<le> (of_char c :: nat)) s then None else a2b_base64 s)"

section \<open>The header codec (\<open>muacrypt/mime.py\<close>)\<close>

definition decode_keydata :: "string \<Rightarrow> bytes option" where
  "decode_keydata ascii_keydata = b64decode ascii_keydata"

text \<open>The attrs class \<open>ACParseResult\<close>; every attribute defaults to \<open>None\<close>.\<close>

record ACParseResult =
  keydata :: "bytes option"
  addr :: "string option"
  prefer_encrypt :: "string option"
  extra_attr :: "(string \<times> string) list option"
  error :: "string option"

text \<open>\<open>ACParseResult(error=reason)\<close>\<close>

definition ac_error :: "string \<Rightarrow> ACParseResult" where
  "ac_error reason =
     \<lparr>keydata = None, addr = None, prefer_encrypt = None, extra_attr = None,
      error = Some reason\<rparr>"

text \<open>\<open>"...'%s'..." % x\<close>: the text in single quotes.\<close>

definition quoted :: "string \<Rightarrow> string" where
  "quoted x = [CHR 0x27] @ x @ [CHR 0x27]"

text \<open>
  \<open>result_dict\<close> only ever receives the keys \<open>keydata\<close>, \<open>prefer_encrypt\<close> and
  \<open>addr\<close> (any other name returns or continues before the assignment), so the
  dictionary is kept as these three entries, \<open>None\<close> for a key that is not in it.
\<close>

record result_dict =
  rd_keydata :: "bytes option"
  rd_prefer_encrypt :: "string option"
  rd_addr :: "string option"

text \<open>The code after the loop of \<open>parse_ac_headervalue\<close>.\<close>

definition parse_finish :: "result_dict \<Rightarrow> (string \<times> string) list \<Rightarrow> ACParseResult" where
  "parse_finish rd ea =
     (if rd_keydata rd = None then ac_error (''critical attr '' @ quoted ''keydata'' @ '' missing'')
      else if rd_addr rd = None then ac_error (''critical attr '' @ quoted ''addr'' @ '' missing'')
      else \<lparr>keydata = rd_keydata rd, addr = rd_addr rd,
            prefer_encrypt = rd_prefer_encrypt rd, extra_attr = Some ea, error = None\<rparr>)"

text \<open>The loop \<open>for x in parts\<close> with its early returns; \<open>name[0]\<close> raises
  \<open>IndexError\<close> on an empty name.\<close>

fun parse_parts :: "string list \<Rightarrow> result_dict \<Rightarrow> (string \<times> string) list
    \<Rightarrow> pyexc + ACParseResult" where
  "parse_parts [] rd ea = Inr (parse_finish rd ea)"
| "parse_parts (x # xs) rd ea =
     (case map py_strip (py_split1 CHR ''='' x) of
        [name, val] \<Rightarrow>
          (if name = ''keydata'' then
             (case decode_keydata (concat (py_split_ws val)) of
                None \<Rightarrow> Inr (ac_error ''failed to decode keydata'')
              | Some b \<Rightarrow> parse_parts xs (rd\<lparr>rd_keydata := Some b\<rparr>) ea)
           else if name = ''prefer-encrypt'' then
             (if val \<noteq> ''nopreference'' \<and> val \<noteq> ''mutual''
              then Inr (ac_error (''unknown prefer-encryp setting '' @ quoted val))
              else parse_parts xs (rd\<lparr>rd_prefer_encrypt := Some val\<rparr>) ea)
           else if name = ''addr'' then parse_parts xs (rd\<lparr>rd_addr := Some val\<rparr>) ea
           else
             (case name of
                [] \<Rightarrow> Inl IndexError
              | c # _ \<Rightarrow>
                  (if c \<noteq> CHR ''_''
                   then Inr (ac_error (''unknown critical attr '' @ quoted name))
                   else parse_parts xs rd (AList.update name val ea))))
      | _ \<Rightarrow> Inr (ac_error ''malformed setting''))"

text \<open>\<open>filter(None, [x.strip() for x in value.split(";")])\<close>: the stripped
  segments that are not empty.\<close>

definition header_parts :: "string \<Rightarrow> string list" where
  "header_parts v = filter (\<lambda>x. x \<noteq> []) (map py_strip (py_split CHR '';'' v))"

text \<open>
  In Python 3 \<open>filter\<close> returns an iterator object. The class defines neither
  \<open>__bool__\<close> nor \<open>__len__\<close>, so the truth value of the object is \<open>True\<close>
  whatever it will yield.
\<close>

definition filter_object_truth :: "'a list \<Rightarrow> bool" where
  "filter_object_truth parts = True"

definition parse_ac_headervalue :: "string \<Rightarrow> pyexc + ACParseResult" where
  "parse_ac_headervalue v =
     (let parts = header_parts v
      in if \<not> filter_object_truth parts then Inr (ac_error ''empty header'')
         else parse_parts parts
                \<lparr>rd_keydata = None, rd_prefer_encrypt = Some ''nopreference'', rd_addr = None\<rparr>
                [])"

text \<open>\<open>indented_split\<close> with its default arguments: the loop over
  \<open>range(0, len(value), maxlen)\<close>.\<close>

fun split_lines :: "nat \<Rightarrow> string \<Rightarrow> nat \<Rightarrow> string \<Rightarrow> string list" where
  "split_lines 0 indent maxlen v = []"
| "split_lines (Suc n) indent maxlen v =
     (indent @ take maxlen v @ [CHR 0x0A]) # split_lines n indent maxlen (drop maxlen v)"

definition indented_split :: "string \<Rightarrow> pyexc + string" where
  "indented_split v =
     (if CHR 0x0A \<in> set v then Inl AssertionError
      else Inr (py_rstrip (concat (split_lines ((length v + 77) div 78) ''  '' 78 v))))"

text \<open>\<open>make_ac_header_value\<close> for a byte string \<open>keydata\<close>.\<close>

definition make_ac_header_value :: "string \<Rightarrow> bytes \<Rightarrow> string \<Rightarrow> pyexc + string" where
  "make_ac_header_value a kd pref =
     (if kd = [] then Inl AssertionError
      else (case indented_split (b64encode kd) of
              Inl e \<Rightarrow> Inl e
            | Inr ks \<Rightarrow>
                Inr (py_join ''; ''
                      ([''addr='' @ a]
                       @ (if pref \<noteq> ''nopreference'' then [''prefer-encrypt='' @ pref] else [])
                       @ [''keydata='' @ [CHR 0x0A] @ ks]))))"


text \<open>
  The part of an \<open>email.message.Message\<close> that header selection reads:
  \<open>msg.get_content_type()\<close> and \<open>msg.get_all("Autocrypt") or []\<close>.
\<close>

record message =
  get_content_type :: string
  get_all_Autocrypt :: "string list"

text \<open>The truth value of a text-or-\<open>None\<close> attribute, as in \<open>not r.error\<close>.\<close>

definition truthy :: "string option \<Rightarrow> bool" where
  "truthy x = (case x of None \<Rightarrow> False | Some s \<Rightarrow> s \<noteq> [])"

text \<open>\<open>not FromList or r.addr in FromList\<close>; \<open>FromList\<close> is \<open>None\<close> or a list of
  addresses.\<close>

definition from_allowed :: "string list option \<Rightarrow> ACParseResult \<Rightarrow> bool" where
  "from_allowed FromList r =
     (case FromList of
        None \<Rightarrow> True
      | Some l \<Rightarrow> l = [] \<or> (case addr r of None \<Rightarrow> False | Some a \<Rightarrow> a \<in> set l))"

text \<open>The loop over the Autocrypt headers, filling \<open>results\<close> and \<open>err_results\<close>;
  an exception of the parser leaves the loop.\<close>

fun collect_headers :: "string list option \<Rightarrow> string list \<Rightarrow> ACParseResult list
    \<Rightarrow> ACParseResult list \<Rightarrow> pyexc + (ACParseResult list \<times> ACParseResult list)" where
  "collect_headers FromList [] results err_results = Inr (results, err_results)"
| "collect_headers FromList (h # hs) results err_results =
     (case parse_ac_headervalue h of
        Inl e \<Rightarrow> Inl e
      | Inr r \<Rightarrow>
          (if \<not> truthy (error r) \<and> from_allowed FromList r
           then collect_headers FromList hs (results @ [r]) err_results
           else collect_headers FromList hs results (err_results @ [r])))"

definition parse_one_ac_header_from_msg :: "message \<Rightarrow> string list option
    \<Rightarrow> pyexc + ACParseResult" where
  "parse_one_ac_header_from_msg msg FromList =
     (if get_content_type msg = ''multipart/report''
      then Inr (ac_error (''Ignoring '' @ quoted ''multipart/report'' @ '' message.''))
      else
        (case collect_headers FromList (get_all_Autocrypt msg) [] [] of
           Inl e \<Rightarrow> Inl e
         | Inr (results, err_results) \<Rightarrow>
             (case results of
                [r] \<Rightarrow> Inr r
              | _ # _ # _ \<Rightarrow> Inr (ac_error ''more than one valid Autocrypt header found'')
              | [] \<Rightarrow>
                  (case err_results of
                     e # _ \<Rightarrow> Inr e
                   | [] \<Rightarrow> Inr (ac_error ''no valid Autocrypt header found'')))))"


section \<open>The persisted configuration (\<open>core/autocrypt/account.py\<close>)\<close>

text \<open>
  \<open>Config\<close> reads and writes its dictionary \<open>_dict\<close> only through the persistent
  properties, so the dictionary is kept as one optional entry for each of them. The
  five text properties hold immutable strings. The entry \<open>peers\<close> holds a mutable
  dictionary object: it is a reference into a store of such objects, because
  \<open>dict.copy()\<close> is a shallow copy and the copy refers to the same object.
  A peer's own dictionary is not changed once it is stored, and is kept by value.
\<close>

datatype pyval = PNone | PStr string

type_synonym pydict = "(string \<times> pyval) list"

type_synonym peers_dict = "(string \<times> pydict) list"

record 'p cfgdict =
  d_uuid :: "string option"
  d_gpgmode :: "string option"
  d_gpgbin :: "string option"
  d_own_keyhandle :: "string option"
  d_prefer_encrypt :: "string option"
  d_peers :: "'p option"

text \<open>
  A \<open>Config\<close> object once \<open>_dict\<close> is loaded: the dictionary objects for peers, the
  next unused reference, \<open>_dict\<close>, \<open>_dict_old\<close>, and what the file at \<open>_path\<close>
  holds (\<open>None\<close> when there is no file).
\<close>

record config =
  objects :: "nat \<Rightarrow> peers_dict option"
  fresh :: nat
  c_dict :: "nat cfgdict"
  c_dict_old :: "nat cfgdict"
  on_disk :: "peers_dict cfgdict option"

definition empty_cfgdict :: "'p cfgdict" where
  "empty_cfgdict =
     \<lparr>d_uuid = None, d_gpgmode = None, d_gpgbin = None, d_own_keyhandle = None,
      d_prefer_encrypt = None, d_peers = None\<rparr>"

text \<open>The cached property \<open>_dict\<close> when the file does not exist: \<open>d = {}\<close> and
  \<open>_dict_old = d.copy()\<close>.\<close>

definition new_config :: config where
  "new_config =
     \<lparr>objects = (\<lambda>_. None), fresh = 0, c_dict = empty_cfgdict, c_dict_old = empty_cfgdict,
      on_disk = None\<rparr>"

definition deref :: "config \<Rightarrow> nat \<Rightarrow> peers_dict" where
  "deref cfg a = (case objects cfg a of None \<Rightarrow> [] | Some p \<Rightarrow> p)"

text \<open>Equality of two dictionaries held as association lists: the same value, or no
  value, under every key.\<close>

definition dict_eq :: "('k \<times> 'v) list \<Rightarrow> ('k \<times> 'v) list \<Rightarrow> bool" where
  "dict_eq a b = list_all (\<lambda>k. map_of a k = map_of b k) (map fst a @ map fst b)"

fun peers_eq :: "('k \<times> ('j \<times> 'v) list) list \<Rightarrow> ('k \<times> ('j \<times> 'v) list) list \<Rightarrow> bool" where
  "peers_eq a b =
     list_all (\<lambda>k. case (map_of a k, map_of b k) of
                      (None, None) \<Rightarrow> True
                    | (Some x, Some y) \<Rightarrow> dict_eq x y
                    | _ \<Rightarrow> False)
       (map fst a @ map fst b)"

text \<open>\<open>self._dict != self._dict_old\<close>: Python compares dictionaries by value, also
  the nested ones.\<close>

definition dict_differs :: "config \<Rightarrow> bool" where
  "dict_differs cfg =
     (let a = c_dict cfg; b = c_dict_old cfg
      in \<not> (d_uuid a = d_uuid b \<and> d_gpgmode a = d_gpgmode b \<and> d_gpgbin a = d_gpgbin b
            \<and> d_own_keyhandle a = d_own_keyhandle b \<and> d_prefer_encrypt a = d_prefer_encrypt b
            \<and> (case (d_peers a, d_peers b) of
                  (None, None) \<Rightarrow> True
                | (Some x, Some y) \<Rightarrow> peers_eq (deref cfg x) (deref cfg y)
                | _ \<Rightarrow> False)))"

text \<open>\<open>json.dump(self._dict, f)\<close>: the file receives the dictionary by value.\<close>

definition dump :: "config \<Rightarrow> peers_dict cfgdict" where
  "dump cfg =
     (let a = c_dict cfg
      in \<lparr>d_uuid = d_uuid a, d_gpgmode = d_gpgmode a, d_gpgbin = d_gpgbin a,
          d_own_keyhandle = d_own_keyhandle a, d_prefer_encrypt = d_prefer_encrypt a,
          d_peers = map_option (deref cfg) (d_peers a)\<rparr>)"

text \<open>\<open>_commit\<close>; \<open>self._dict.copy()\<close> copies the entries, so the copy holds the same
  reference under \<open>peers\<close>.\<close>

definition commit :: "config \<Rightarrow> config" where
  "commit cfg =
     (if dict_differs cfg
      then cfg\<lparr>on_disk := Some (dump cfg), c_dict_old := c_dict cfg\<rparr>
      else cfg)"

text \<open>The getter of the property \<open>peers\<close>: \<open>self._dict.setdefault("peers", dict())\<close>
  returns the dictionary object, after storing a new empty one when the entry is
  missing.\<close>

definition get_peers :: "config \<Rightarrow> nat \<times> config" where
  "get_peers cfg =
     (case d_peers (c_dict cfg) of
        Some a \<Rightarrow> (a, cfg)
      | None \<Rightarrow>
          (fresh cfg,
           cfg\<lparr>objects := (objects cfg)(fresh cfg \<mapsto> []), fresh := Suc (fresh cfg),
               c_dict := (c_dict cfg)\<lparr>d_peers := Some (fresh cfg)\<rparr>\<rparr>))"

text \<open>The statements that occur inside \<open>with self.config.atomic_change():\<close>:
  assigning a text property (the setter raises \<open>ValueError\<close> for a value outside the
  property's \<open>values\<close>), \<open>self.config.peers[From] = d\<close>, and any statement that
  raises.\<close>

datatype attr = Uuid | Gpgmode | Gpgbin | Own_keyhandle | Prefer_encrypt

datatype stmt = SetAttr attr string | SetPeer string pydict | Raise pyexc

definition attr_values :: "attr \<Rightarrow> string list option" where
  "attr_values a =
     (case a of
        Gpgmode \<Rightarrow> Some [''system'', ''own'']
      | Prefer_encrypt \<Rightarrow> Some [''yes'', ''no'', ''notset'']
      | _ \<Rightarrow> None)"

definition set_attr :: "attr \<Rightarrow> string \<Rightarrow> 'p cfgdict \<Rightarrow> 'p cfgdict" where
  "set_attr a v d =
     (case a of
        Uuid \<Rightarrow> d\<lparr>d_uuid := Some v\<rparr>
      | Gpgmode \<Rightarrow> d\<lparr>d_gpgmode := Some v\<rparr>
      | Gpgbin \<Rightarrow> d\<lparr>d_gpgbin := Some v\<rparr>
      | Own_keyhandle \<Rightarrow> d\<lparr>d_own_keyhandle := Some v\<rparr>
      | Prefer_encrypt \<Rightarrow> d\<lparr>d_prefer_encrypt := Some v\<rparr>)"

text \<open>One statement: the configuration after it, and the exception when it raised.\<close>

fun exec_stmt :: "stmt \<Rightarrow> config \<Rightarrow> config \<times> pyexc option" where
  "exec_stmt (SetAttr a v) cfg =
     (case attr_values a of
        None \<Rightarrow> (cfg\<lparr>c_dict := set_attr a v (c_dict cfg)\<rparr>, None)
      | Some vs \<Rightarrow>
          (if v \<in> set vs then (cfg\<lparr>c_dict := set_attr a v (c_dict cfg)\<rparr>, None)
           else (cfg, Some ValueError)))"
| "exec_stmt (SetPeer From d) cfg =
     (case get_peers cfg of
        (a, cfg') \<Rightarrow>
          (cfg'\<lparr>objects := (objects cfg')(a \<mapsto> AList.update From d (deref cfg' a))\<rparr>, None))"
| "exec_stmt (Raise e) cfg = (cfg, Some e)"

fun exec_body :: "stmt list \<Rightarrow> config \<Rightarrow> config \<times> pyexc option" where
  "exec_body [] cfg = (cfg, None)"
| "exec_body (s # ss) cfg =
     (case exec_stmt s cfg of
        (cfg', Some e) \<Rightarrow> (cfg', Some e)
      | (cfg', None) \<Rightarrow> exec_body ss cfg')"

text \<open>\<open>atomic_change\<close> around a body: the configuration afterwards, and the exception
  that is raised again.\<close>

definition atomic_change :: "stmt list \<Rightarrow> config \<Rightarrow> config \<times> pyexc option" where
  "atomic_change body cfg =
     (case exec_body body cfg of
        (cfg', Some e) \<Rightarrow> (cfg'\<lparr>c_dict := c_dict_old cfg'\<rparr>, Some e)
      | (cfg', None) \<Rightarrow> (commit cfg', None))"

text \<open>What \<open>_dict\<close> holds by value, as \<open>json.dump\<close> would write it; and
  \<open>self.config.peers.get(emailadr)\<close> without the getter's side effect.\<close>

definition peer_state :: "config \<Rightarrow> string \<Rightarrow> pydict option" where
  "peer_state cfg emailadr =
     (case d_peers (c_dict cfg) of
        None \<Rightarrow> None
      | Some a \<Rightarrow> map_of (deref cfg a) emailadr)"

section \<open>Processing an incoming message (\<open>Account.process_incoming\<close>)\<close>

text \<open>
  \<open>account.py\<close> imports the module \<open>mime\<close> of its own package, whose functions
  return a pair for \<open>parse_email_addr\<close> and a dictionary with the keys \<open>to\<close> and
  \<open>key\<close> for \<open>parse_one_ac_header_from_msg\<close>; that module and the keyring
  \<open>bingpg\<close> are not among the sources. What they and the standard library return for
  the message are arguments of the model:
  \<^item> \<open>From\<close>: \<open>mime.parse_email_addr(msg["From"])[1]\<close>;
  \<^item> \<open>d\<close>: \<open>mime.parse_one_ac_header_from_msg(msg)\<close>, a dictionary;
  \<^item> \<open>date\<close>: \<open>msg.get("Date")\<close>, \<open>None\<close> without a Date header;
  \<^item> \<open>parsedate\<close>: \<open>email.utils.parsedate\<close> on a text, a time tuple or \<open>None\<close>;
  \<^item> \<open>import_keydata\<close>: \<open>self.bingpg.import_keydata\<close>, a key handle or an exception.
\<close>

type_synonym timetuple = "int list"

text \<open>\<open>parsedate(x)\<close> for a value that is a text or \<open>None\<close>: \<open>None\<close> for \<open>None\<close>.\<close>

definition parsedate_val :: "(string \<Rightarrow> timetuple option) \<Rightarrow> pyval \<Rightarrow> timetuple option" where
  "parsedate_val parsedate x = (case x of PNone \<Rightarrow> None | PStr s \<Rightarrow> parsedate s)"

text \<open>\<open>a >= b\<close> on results of \<open>parsedate\<close>: tuples compare lexicographically, and
  Python 3 raises \<open>TypeError\<close> when a side is \<open>None\<close>.\<close>

definition py_ge :: "timetuple option \<Rightarrow> timetuple option \<Rightarrow> pyexc + bool" where
  "py_ge a b =
     (case (a, b) of
        (Some x, Some y) \<Rightarrow> Inr (y \<le> x)
      | _ \<Rightarrow> Inl TypeError)"

definition val_of :: "string option \<Rightarrow> pyval" where
  "val_of x = (case x of None \<Rightarrow> PNone | Some s \<Rightarrow> PStr s)"

text \<open>\<open>b64decode(d["key"])\<close>: \<open>KeyError\<close> without the key, \<open>TypeError\<close> for \<open>None\<close>,
  \<open>binascii.Error\<close> (or \<open>ValueError\<close>) for text that does not decode.\<close>

definition decode_key :: "pydict \<Rightarrow> pyexc + bytes" where
  "decode_key d =
     (case map_of d ''key'' of
        None \<Rightarrow> Inl KeyError
      | Some PNone \<Rightarrow> Inl TypeError
      | Some (PStr k) \<Rightarrow> (case b64decode k of None \<Rightarrow> Inl BinasciiError | Some b \<Rightarrow> Inr b))"

text \<open>\<open>PeerInfo(d)\<close>: a copy of \<open>d\<close> without the two bookkeeping keys, which are
  popped into attributes (\<open>KeyError\<close> when one is missing).\<close>

record PeerInfo =
  pi_dict :: pydict
  pi_keyhandle :: pyval
  pi_date :: pyval

definition make_PeerInfo :: "pydict \<Rightarrow> pyexc + PeerInfo" where
  "make_PeerInfo d =
     (case map_of d ''*keyhandle'' of
        None \<Rightarrow> Inl KeyError
      | Some kh \<Rightarrow>
          (case map_of (AList.delete ''*keyhandle'' d) ''*date'' of
             None \<Rightarrow> Inl KeyError
           | Some dt \<Rightarrow>
               Inr \<lparr>pi_dict = AList.delete ''*date'' (AList.delete ''*keyhandle'' d),
                    pi_keyhandle = kh, pi_date = dt\<rparr>))"

text \<open>
  \<open>process_incoming\<close>: the configuration afterwards, and the exception raised or the
  value returned (\<open>None\<close> or a \<open>PeerInfo\<close>).
\<close>

definition process_incoming :: "(string \<Rightarrow> timetuple option) \<Rightarrow> (bytes \<Rightarrow> pyexc + string)
    \<Rightarrow> string \<Rightarrow> pydict \<Rightarrow> string option \<Rightarrow> config \<Rightarrow> config \<times> (pyexc + PeerInfo option)" where
  "process_incoming parsedate import_keydata From d date cfg =
     (case get_peers cfg of
        (a, cfg1) \<Rightarrow>
          (let old = (case map_of (deref cfg1 a) From of None \<Rightarrow> [] | Some x \<Rightarrow> x)
           in if d \<noteq> [] then
                (case map_of d ''to'' of
                   None \<Rightarrow> (cfg1, Inl KeyError)
                 | Some t \<Rightarrow>
                     (if t = PStr From then
                        (case py_ge (parsedate_val parsedate (val_of date))
                                (parsedate_val parsedate
                                   (case map_of old ''*date'' of
                                      None \<Rightarrow> val_of date
                                    | Some x \<Rightarrow> x)) of
                           Inl e \<Rightarrow> (cfg1, Inl e)
                         | Inr False \<Rightarrow> (cfg1, Inr None)
                         | Inr True \<Rightarrow>
                             (let d1 = AList.update ''*date'' (val_of date) d
                              in case decode_key d1 of
                                   Inl e \<Rightarrow> (cfg1, Inl e)
                                 | Inr kd \<Rightarrow>
                                     (case import_keydata kd of
                                        Inl e \<Rightarrow> (cfg1, Inl e)
                                      | Inr kh \<Rightarrow>
                                          (let d2 = AList.update ''*keyhandle'' (PStr kh) d1
                                           in case atomic_change [SetPeer From d2] cfg1 of
                                                (cfg2, Some e) \<Rightarrow> (cfg2, Inl e)
                                              | (cfg2, None) \<Rightarrow>
                                                  (case make_PeerInfo d2 of
                                                     Inl e \<Rightarrow> (cfg2, Inl e)
                                                   | Inr pi \<Rightarrow> (cfg2, Inr (Some pi)))))))
                      else (cfg1, Inr None)))
              else if old \<noteq> [] then
                (case atomic_change [SetPeer From []] cfg1 of
                   (cfg2, Some e) \<Rightarrow> (cfg2, Inl e)
                 | (cfg2, None) \<Rightarrow> (cfg2, Inr None))
              else (cfg1, Inr None)))"

text \<open>\<open>get_peerinfo\<close>\<close>

definition get_peerinfo :: "string \<Rightarrow> config \<Rightarrow> config \<times> (pyexc + PeerInfo option)" where
  "get_peerinfo emailadr cfg =
     (case get_peers cfg of
        (a, cfg1) \<Rightarrow>
          (case map_of (deref cfg1 a) emailadr of
             None \<Rightarrow> (cfg1, Inr None)
           | Some state \<Rightarrow>
               (if state \<noteq> [] then
                  (case make_PeerInfo state of
                     Inl e \<Rightarrow> (cfg1, Inl e)
                   | Inr pi \<Rightarrow> (cfg1, Inr (Some pi)))
                else (cfg1, Inr None))))"

text \<open>A header value that the loop of \<open>parse_one_ac_header_from_msg\<close> appends to
  \<open>results\<close>: it parses without error and passes \<open>FromList\<close>.\<close>

definition valid_header :: "string list option \<Rightarrow> string \<Rightarrow> bool" where
  "valid_header FromList h =
     (case parse_ac_headervalue h of
        Inl e \<Rightarrow> False
      | Inr r \<Rightarrow> \<not> truthy (error r) \<and> from_allowed FromList r)"

text \<open>The parser returns for the header value, with or without an error.\<close>

definition parser_returns :: "string \<Rightarrow> bool" where
  "parser_returns h = (case parse_ac_headervalue h of Inl e \<Rightarrow> False | Inr r \<Rightarrow> True)"

section \<open>Example inputs\<close>

text \<open>Two dates with the tuples \<open>parsedate\<close> gives for them, a keyring that names a
  key by its base64 text, headers of the peer \<open>a@x\<close>, and the configuration of a new
  account that has processed a message of \<open>a@x\<close> dated 2 February 2020.\<close>

abbreviation date_feb :: string where
  "date_feb \<equiv> ''Sun, 02 Feb 2020 10:00:00 +0000''"

abbreviation date_jan :: string where
  "date_jan \<equiv> ''Wed, 01 Jan 2020 10:00:00 +0000''"

abbreviation ex_parsedate :: "string \<Rightarrow> timetuple option" where
  "ex_parsedate \<equiv>
     map_of [(date_feb, [2020, 2, 2, 10, 0, 0, 0, 1, -1]),
             (date_jan, [2020, 1, 1, 10, 0, 0, 0, 1, -1])]"

abbreviation ex_keyring :: "bytes \<Rightarrow> pyexc + string" where
  "ex_keyring \<equiv> Inr \<circ> b64encode"

abbreviation hdr_a :: pydict where
  "hdr_a \<equiv> [(''to'', PStr ''a@x''), (''key'', PStr ''AAAA'')]"

abbreviation hdr_a2 :: pydict where
  "hdr_a2 \<equiv> [(''to'', PStr ''a@x''), (''key'', PStr ''AAAB'')]"

abbreviation hdr_b :: pydict where
  "hdr_b \<equiv> [(''to'', PStr ''b@x''), (''key'', PStr ''AAAC'')]"

abbreviation stored_a :: pydict where
  "stored_a \<equiv> [(''to'', PStr ''a@x''), (''key'', PStr ''AAAA''),
                (''*date'', PStr date_feb), (''*keyhandle'', PStr ''AAAA'')]"

abbreviation cfg_feb :: config where
  "cfg_feb \<equiv>
     fst (process_incoming ex_parsedate ex_keyring ''a@x'' hdr_a (Some date_feb) new_config)"

text \<open>A statement that does not touch the dictionary of peers.\<close>

fun text_only :: "stmt \<Rightarrow> bool" where
  "text_only (SetPeer From d) = False"
| "text_only s = True"

text \<open>\<open>_dict\<close> by value, and \<open>_dict_old\<close> by value.\<close>

definition dump_old :: "config \<Rightarrow> peers_dict cfgdict" where
  "dump_old cfg = dump (cfg\<lparr>c_dict := c_dict_old cfg\<rparr>)"

section \<open>Parsing a header value\<close>

lemma parse_no_parts:
  "header_parts v = [] \<Longrightarrow>
   parse_ac_headervalue v =
     Inr (ac_error (''critical attr '' @ quoted ''keydata'' @ '' missing''))"
  by (simp add: parse_ac_headervalue_def filter_object_truth_def parse_finish_def)

text \<open>
  C6. A header value without any segment, such as the empty string or a string of
  semicolons and blanks, should give the error \<open>empty header\<close>. The test
  \<open>if not parts\<close> is made on a \<open>filter\<close> object, which is true in Python 3, so the
  loop runs over no segment and the check for the critical attributes answers instead:
  the result is the error \<open>critical attr 'keydata' missing\<close>.
\<close>

theorem empty_header_not_reported:
  "header_parts '' ; ;'' = []
   \<and> parse_ac_headervalue '' ; ;''
       = Inr (ac_error (''critical attr '' @ quoted ''keydata'' @ '' missing''))
   \<and> parse_ac_headervalue [] \<noteq> Inr (ac_error ''empty header'')"
  by code_simp

text \<open>
  C5. A segment with a name that is not \<open>addr\<close>, \<open>prefer-encrypt\<close> or \<open>keydata\<close>
  and does not start with an underscore should give an error result. For the segment
  \<open>=bar\<close> the name is empty, \<open>name[0]\<close> raises \<open>IndexError\<close>, and the parser raises
  instead of returning a result, also after valid attributes.
\<close>

theorem empty_name_raises:
  "parse_ac_headervalue ''=bar'' = Inl IndexError
   \<and> parse_ac_headervalue ''addr=a@b.c; keydata=AAAA; =bar'' = Inl IndexError"
  by code_simp

section \<open>Selecting the header of a message\<close>

text \<open>
  C7. With no valid header left, selection should return an error result with a
  reason. A header that parses but whose address is not in \<open>FromList\<close> is appended to
  \<open>err_results\<close> as it is, and it is returned when no header is valid: the caller
  receives the key of an address outside the list, with \<open>error\<close> equal to \<open>None\<close>.
\<close>

theorem excluded_header_returned_without_error:
  "parse_one_ac_header_from_msg
     \<lparr>get_content_type = ''text/plain'',
      get_all_Autocrypt = [''addr=a@x; keydata=AAAA'']\<rparr>
     (Some [''b@x''])
   = Inr \<lparr>keydata = Some [0, 0, 0], addr = Some ''a@x'',
          prefer_encrypt = Some ''nopreference'', extra_attr = Some [], error = None\<rparr>"
  by code_simp

lemma collect_headers_results:
  "list_all parser_returns hs \<Longrightarrow>
   \<exists>es. collect_headers fl hs rs errs
        = Inr (rs @ map (\<lambda>h. projr (parse_ac_headervalue h)) (filter (valid_header fl) hs), es)"
proof (induction hs arbitrary: rs errs)
  case Nil
  then show ?case by simp
next
  case (Cons h hs)
  from Cons.prems obtain r where r: "parse_ac_headervalue h = Inr r"
    by (auto simp: parser_returns_def split: sum.splits)
  from Cons.prems have rest: "list_all parser_returns hs" by simp
  show ?case
  proof (cases "valid_header fl h")
    case True
    with r have ok: "\<not> truthy (error r) \<and> from_allowed fl r" by (simp add: valid_header_def)
    from Cons.IH [OF rest, of "rs @ [r]" errs] True r ok show ?thesis by simp
  next
    case False
    with r have ok: "\<not> (\<not> truthy (error r) \<and> from_allowed fl r)" by (simp add: valid_header_def)
    from Cons.IH [OF rest, of rs "errs @ [r]"] False r ok show ?thesis by auto
  qed
qed

text \<open>
  C4 (amended). In a message that is not a \<open>multipart/report\<close> and whose
  Autocrypt headers all make the parser return, two or more headers that parse without
  error and pass \<open>FromList\<close> make selection return the error
  \<open>more than one valid Autocrypt header found\<close>, which is none of the valid headers.
\<close>

theorem ambiguous_headers_rejected:
  assumes "get_content_type msg \<noteq> ''multipart/report''"
    and "list_all parser_returns (get_all_Autocrypt msg)"
    and "2 \<le> length (filter (valid_header FromList) (get_all_Autocrypt msg))"
  shows "parse_one_ac_header_from_msg msg FromList
         = Inr (ac_error ''more than one valid Autocrypt header found'')"
proof -
  let ?rs = "map (\<lambda>h. projr (parse_ac_headervalue h))
               (filter (valid_header FromList) (get_all_Autocrypt msg))"
  from collect_headers_results [OF assms(2), of FromList "[]" "[]"]
  obtain es where c: "collect_headers FromList (get_all_Autocrypt msg) [] [] = Inr (?rs, es)"
    by auto
  from assms(3) have "2 \<le> length ?rs" by simp
  then obtain a b rest where "?rs = a # b # rest"
    by (cases ?rs; cases "tl ?rs") auto
  with c assms(1) show ?thesis
    by (simp add: parse_one_ac_header_from_msg_def)
qed

text \<open>The amended C4 at a message with two valid headers for \<open>a@x\<close> and a malformed
  third one.\<close>

theorem ambiguous_headers_rejected_witness:
  "parse_one_ac_header_from_msg
     \<lparr>get_content_type = ''text/plain'',
      get_all_Autocrypt = [''addr=a@x; keydata=AAAA'', ''addr=a@x; keydata=AAAB'', ''foo'']\<rparr>
     (Some [''a@x''])
   = Inr (ac_error ''more than one valid Autocrypt header found'')"
proof -
  let ?m = "\<lparr>get_content_type = ''text/plain'',
      get_all_Autocrypt = [''addr=a@x; keydata=AAAA'', ''addr=a@x; keydata=AAAB'', ''foo'']\<rparr>"
  have 1: "get_content_type ?m \<noteq> ''multipart/report''" by simp
  have 2: "list_all parser_returns (get_all_Autocrypt ?m)" by code_simp
  have 3: "2 \<le> length (filter (valid_header (Some [''a@x''])) (get_all_Autocrypt ?m))" by code_simp
  show ?thesis by (rule ambiguous_headers_rejected [OF 1 2 3])
qed

text \<open>
  C4 as stated fails for a delivery report: the guard on the content type returns its
  own error before any header is read, also when the message carries two valid headers.
\<close>

theorem report_with_two_headers_counterexample:
  "valid_header None ''addr=a@x; keydata=AAAA''
   \<and> valid_header None ''addr=a@x; keydata=AAAB''
   \<and> parse_one_ac_header_from_msg
        \<lparr>get_content_type = ''multipart/report'',
         get_all_Autocrypt = [''addr=a@x; keydata=AAAA'', ''addr=a@x; keydata=AAAB'']\<rparr>
        None
      \<noteq> Inr (ac_error ''more than one valid Autocrypt header found'')"
  by code_simp

section \<open>The peer store and incoming messages\<close>

lemma get_peers_present:
  "d_peers (c_dict cfg) = Some a \<Longrightarrow> get_peers cfg = (a, cfg)"
  by (simp add: get_peers_def)

lemma peer_state_SomeD:
  "peer_state cfg x = Some old \<Longrightarrow>
   \<exists>a. d_peers (c_dict cfg) = Some a \<and> map_of (deref cfg a) x = Some old"
  by (auto simp: peer_state_def split: option.splits)

lemma get_peers_lookup:
  "get_peers cfg = (a, cfg1) \<Longrightarrow> map_of (deref cfg1 a) x = peer_state cfg x"
  by (auto simp: get_peers_def peer_state_def deref_def split: option.splits)

lemma get_peers_view:
  "get_peers cfg = (a, cfg1) \<Longrightarrow>
   peer_state cfg1 x = peer_state cfg x \<and> on_disk cfg1 = on_disk cfg
   \<and> d_peers (c_dict cfg1) = Some a"
  by (auto simp: get_peers_def peer_state_def deref_def split: option.splits)

lemma commit_view:
  "peer_state (commit cfg) x = peer_state cfg x"
  by (simp add: commit_def peer_state_def deref_def split: option.splits)

lemma set_peer_view:
  "d_peers (c_dict cfg) = Some a \<Longrightarrow>
   atomic_change [SetPeer x v] cfg = (cfg2, r) \<Longrightarrow>
   r = None \<and> peer_state cfg2 y = (if y = x then Some v else peer_state cfg y)"
  by (auto simp: atomic_change_def get_peers_def commit_view peer_state_def deref_def
      update_conv' commit_def split: if_splits)

lemma older_date_unchanged:
  assumes "peer_state cfg From = Some old"
    and "map_of old ''*date'' = Some (PStr A)"
    and "d \<noteq> []"
    and "parsedate s = Some t" and "parsedate A = Some tA" and "t < tA"
  shows "fst (process_incoming parsedate import_keydata From d (Some s) cfg) = cfg"
proof -
  from peer_state_SomeD [OF assms(1)] obtain a where
    a: "d_peers (c_dict cfg) = Some a" "map_of (deref cfg a) From = Some old" by auto
  have ge: "py_ge (Some t) (Some tA) = Inr False"
    using assms(6) by (simp add: py_ge_def)
  show ?thesis
    using a assms(2-5) ge
    by (simp add: process_incoming_def get_peers_present parsedate_val_def val_of_def
        split: option.splits)
qed

lemma newer_header_accepted:
  assumes "peer_state cfg From = Some old"
    and "map_of old ''*date'' = Some (PStr A)"
    and "map_of d ''to'' = Some (PStr From)"
    and "map_of d ''key'' = Some (PStr k)" and "b64decode k = Some kd"
    and "import_keydata kd = Inr kh"
    and "parsedate s = Some t" and "parsedate A = Some tA" and "tA \<le> t"
  shows "peer_state (fst (process_incoming parsedate import_keydata From d (Some s) cfg)) From
         = Some (AList.update ''*keyhandle'' (PStr kh) (AList.update ''*date'' (PStr s) d))"
proof -
  from peer_state_SomeD [OF assms(1)] obtain a where
    a: "d_peers (c_dict cfg) = Some a" "map_of (deref cfg a) From = Some old" by auto
  have ge: "py_ge (Some t) (Some tA) = Inr True"
    using assms(9) by (simp add: py_ge_def)
  from assms(3) have ne: "d \<noteq> []" by auto
  let ?d2 = "AList.update ''*keyhandle'' (PStr kh) (AList.update ''*date'' (PStr s) d)"
  have dk: "decode_key (AList.update ''*date'' (PStr s) d) = Inr kd"
    using assms(4,5) by (simp add: decode_key_def update_conv')
  obtain cfg2 r where ac: "atomic_change [SetPeer From ?d2] cfg = (cfg2, r)"
    by (cases "atomic_change [SetPeer From ?d2] cfg") auto
  from set_peer_view [OF a(1) ac, of From]
  have r: "r = None" and v: "peer_state cfg2 From = Some ?d2" by auto
  show ?thesis
    using a assms(2,3,6,7,8) ge ne dk ac r v
    by (simp add: process_incoming_def get_peers_present parsedate_val_def val_of_def
        split: sum.splits)
qed

text \<open>
  C2. The peer has a stored header with the date \<open>A\<close>, and a message of that peer
  carries a header (\<open>d\<close> is not empty). When the date of the message is strictly
  older than \<open>A\<close>, processing leaves the whole configuration as it was, so the stored
  header stays. When it is equal or newer and the header names the sender with a key
  that decodes and imports, the stored state is overwritten with the header, the
  message's date and the key handle: the stored date never decreases.
\<close>

theorem stored_date_guard:
  assumes "peer_state cfg From = Some old"
    and "map_of old ''*date'' = Some (PStr A)"
    and "parsedate A = Some tA" and "parsedate s = Some t" and "d \<noteq> []"
  shows "(t < tA \<longrightarrow>
            fst (process_incoming parsedate import_keydata From d (Some s) cfg) = cfg)
       \<and> (tA \<le> t \<and> map_of d ''to'' = Some (PStr From) \<and> map_of d ''key'' = Some (PStr k)
            \<and> b64decode k = Some kd \<and> import_keydata kd = Inr kh \<longrightarrow>
            peer_state (fst (process_incoming parsedate import_keydata From d (Some s) cfg)) From
            = Some (AList.update ''*keyhandle'' (PStr kh) (AList.update ''*date'' (PStr s) d)))"
  using older_date_unchanged [OF assms(1,2,5,4,3)]
    newer_header_accepted [OF assms(1,2) _ _ _ _ assms(4,3)]
  by blast

text \<open>C2 at the scenario of the specification: a header dated 2 February is stored,
  a header dated 1 January is ignored, a second one dated 2 February overwrites.\<close>

theorem stored_date_guard_witness:
  "fst (process_incoming ex_parsedate ex_keyring ''a@x'' hdr_a2 (Some date_jan) cfg_feb) = cfg_feb
   \<and> peer_state (fst (process_incoming ex_parsedate ex_keyring ''a@x'' hdr_a2 (Some date_feb)
                        cfg_feb)) ''a@x''
     = Some (AList.update ''*keyhandle'' (PStr ''AAAB'')
               (AList.update ''*date'' (PStr date_feb) hdr_a2))"
proof -
  have 1: "peer_state cfg_feb ''a@x'' = Some stored_a" by code_simp
  have 2: "map_of stored_a ''*date'' = Some (PStr date_feb)" by code_simp
  have 3: "ex_parsedate date_feb = Some [2020, 2, 2, 10, 0, 0, 0, 1, -1]" by code_simp
  have 4: "ex_parsedate date_jan = Some [2020, 1, 1, 10, 0, 0, 0, 1, -1]" by code_simp
  have 5: "hdr_a2 \<noteq> []" by simp
  have 6: "[2020, 1, 1, 10, 0, 0, 0, 1, -1] < [2020, 2, 2, 10, 0, 0, 0, 1, -1::int]"
    by code_simp
  have 7: "[2020, 2, 2, 10, 0, 0, 0, 1, -1] \<le> [2020, 2, 2, 10, 0, 0, 0, 1, -1::int]
           \<and> map_of hdr_a2 ''to'' = Some (PStr ''a@x'')
           \<and> map_of hdr_a2 ''key'' = Some (PStr ''AAAB'')
           \<and> b64decode ''AAAB'' = Some [0, 0, 1] \<and> ex_keyring [0, 0, 1] = Inr ''AAAB''"
    by code_simp
  from stored_date_guard [where parsedate = ex_parsedate and A = date_feb and s = date_jan
      and import_keydata = ex_keyring, OF 1 2 3 4 5] 6
  have a: "fst (process_incoming ex_parsedate ex_keyring ''a@x'' hdr_a2 (Some date_jan) cfg_feb)
           = cfg_feb" by blast
  from stored_date_guard [where parsedate = ex_parsedate and A = date_feb and s = date_feb
      and import_keydata = ex_keyring and k = "''AAAB''"
      and kd = "[0, 0, 1]" and kh = "''AAAB''", OF 1 2 3 3 5] 7
  have b: "peer_state (fst (process_incoming ex_parsedate ex_keyring ''a@x'' hdr_a2
                              (Some date_feb) cfg_feb)) ''a@x''
           = Some (AList.update ''*keyhandle'' (PStr ''AAAB'')
               (AList.update ''*date'' (PStr date_feb) hdr_a2))" by blast
  from a b show ?thesis by blast
qed

text \<open>
  C8. The peer has stored state with a header, and header selection finds no header
  in the message (\<open>d\<close> is empty). Processing returns \<open>None\<close>, the peer's stored
  dictionary becomes empty, and \<open>get_peerinfo\<close> afterwards returns \<open>None\<close> for the
  address.
\<close>

theorem mail_without_header_clears_peer:
  assumes "peer_state cfg From = Some old" and "old \<noteq> []"
  shows "snd (process_incoming parsedate import_keydata From [] date cfg) = Inr None
    \<and> peer_state (fst (process_incoming parsedate import_keydata From [] date cfg)) From = Some []
    \<and> snd (get_peerinfo From (fst (process_incoming parsedate import_keydata From [] date cfg)))
        = Inr None"
proof -
  from peer_state_SomeD [OF assms(1)] obtain a where
    a: "d_peers (c_dict cfg) = Some a" "map_of (deref cfg a) From = Some old" by auto
  obtain cfg2 r where ac: "atomic_change [SetPeer From []] cfg = (cfg2, r)"
    by (cases "atomic_change [SetPeer From []] cfg") auto
  from set_peer_view [OF a(1) ac, of From]
  have r: "r = None" and v: "peer_state cfg2 From = Some []" by auto
  have pi: "process_incoming parsedate import_keydata From [] date cfg = (cfg2, Inr None)"
    using a assms(2) ac r by (simp add: process_incoming_def get_peers_present)
  from peer_state_SomeD [OF v] obtain b where
    b: "d_peers (c_dict cfg2) = Some b" "map_of (deref cfg2 b) From = Some []" by auto
  have "snd (get_peerinfo From cfg2) = Inr None"
    using b by (simp add: get_peerinfo_def get_peers_present)
  with pi v show ?thesis by simp
qed

text \<open>C8 for the account that stored a header of \<open>a@x\<close>.\<close>

theorem mail_without_header_clears_peer_witness:
  "peer_state cfg_feb ''a@x'' = Some stored_a
   \<and> snd (process_incoming ex_parsedate ex_keyring ''a@x'' [] (Some date_jan) cfg_feb) = Inr None
   \<and> peer_state (fst (process_incoming ex_parsedate ex_keyring ''a@x'' [] (Some date_jan) cfg_feb))
       ''a@x'' = Some []
   \<and> snd (get_peerinfo ''a@x''
            (fst (process_incoming ex_parsedate ex_keyring ''a@x'' [] (Some date_jan) cfg_feb)))
      = Inr None"
proof -
  have 1: "peer_state cfg_feb ''a@x'' = Some stored_a" by code_simp
  have 2: "stored_a \<noteq> []" by simp
  from mail_without_header_clears_peer [where parsedate = ex_parsedate
      and import_keydata = ex_keyring and date = "Some date_jan", OF 1 2] 1
  show ?thesis by blast
qed

text \<open>
  C3 (amended). A header that names another address than the sender, or that names the
  sender in a message strictly older than the stored date, is ignored: processing
  returns \<open>None\<close> without raising, every peer's state and the file stay as they are.
\<close>

theorem foreign_or_stale_header_ignored:
  assumes "map_of d ''to'' = Some t"
    and "t \<noteq> PStr From
         \<or> (\<exists>old A s ts tA. peer_state cfg From = Some old
               \<and> map_of old ''*date'' = Some (PStr A) \<and> date = Some s
               \<and> parsedate s = Some ts \<and> parsedate A = Some tA \<and> ts < tA)"
  shows "snd (process_incoming parsedate import_keydata From d date cfg) = Inr None
    \<and> peer_state (fst (process_incoming parsedate import_keydata From d date cfg)) x
        = peer_state cfg x
    \<and> on_disk (fst (process_incoming parsedate import_keydata From d date cfg)) = on_disk cfg"
proof -
  obtain a cfg1 where g: "get_peers cfg = (a, cfg1)" by (cases "get_peers cfg") auto
  note v = get_peers_view [OF g, of x]
  from assms(1) have ne: "d \<noteq> []" by auto
  show ?thesis
  proof (cases "t = PStr From")
    case False
    then show ?thesis using g v ne assms(1) by (simp add: process_incoming_def)
  next
    case True
    with assms(2) obtain old A s ts tA where
      o: "peer_state cfg From = Some old" "map_of old ''*date'' = Some (PStr A)"
         "date = Some s" "parsedate s = Some ts" "parsedate A = Some tA" "ts < tA"
      by auto
    from get_peers_lookup [OF g, of From] o(1)
    have l: "map_of (deref cfg1 a) From = Some old" by simp
    have ge: "py_ge (Some ts) (Some tA) = Inr False"
      using o(6) by (simp add: py_ge_def)
    show ?thesis
      using g v ne assms(1) True l o(2-5) ge
      by (simp add: process_incoming_def parsedate_val_def val_of_def)
  qed
qed

text \<open>The amended C3 for a header of \<open>b@x\<close> in a message of \<open>a@x\<close>, and for a
  header of \<open>a@x\<close> dated before the stored one.\<close>

theorem foreign_or_stale_header_ignored_witness:
  "snd (process_incoming ex_parsedate ex_keyring ''a@x'' hdr_b (Some date_feb) cfg_feb) = Inr None
   \<and> peer_state (fst (process_incoming ex_parsedate ex_keyring ''a@x'' hdr_b (Some date_feb)
                        cfg_feb)) ''a@x'' = peer_state cfg_feb ''a@x''
   \<and> snd (process_incoming ex_parsedate ex_keyring ''a@x'' hdr_a2 (Some date_jan) cfg_feb)
      = Inr None
   \<and> on_disk (fst (process_incoming ex_parsedate ex_keyring ''a@x'' hdr_a2 (Some date_jan)
                     cfg_feb)) = on_disk cfg_feb"
proof -
  have 1: "map_of hdr_b ''to'' = Some (PStr ''b@x'')" by simp
  have 2: "PStr ''b@x'' \<noteq> PStr ''a@x''" by simp
  have 3: "map_of hdr_a2 ''to'' = Some (PStr ''a@x'')" by simp
  have 4: "peer_state cfg_feb ''a@x'' = Some stored_a
           \<and> map_of stored_a ''*date'' = Some (PStr date_feb)
           \<and> Some date_jan = Some date_jan
           \<and> ex_parsedate date_jan = Some [2020, 1, 1, 10, 0, 0, 0, 1, -1]
           \<and> ex_parsedate date_feb = Some [2020, 2, 2, 10, 0, 0, 0, 1, -1]
           \<and> [2020, 1, 1, 10, 0, 0, 0, 1, -1] < [2020, 2, 2, 10, 0, 0, 0, 1, -1::int]"
    by code_simp
  have 5: "PStr ''a@x'' \<noteq> PStr ''a@x''
           \<or> (\<exists>old A s ts tA. peer_state cfg_feb ''a@x'' = Some old
               \<and> map_of old ''*date'' = Some (PStr A) \<and> Some date_jan = Some s
               \<and> ex_parsedate s = Some ts \<and> ex_parsedate A = Some tA \<and> ts < tA)"
    using 4 by blast
  from foreign_or_stale_header_ignored [where From = "''a@x''" and cfg = cfg_feb
      and date = "Some date_feb" and parsedate = ex_parsedate and import_keydata = ex_keyring
      and x = "''a@x''", OF 1] 2
    foreign_or_stale_header_ignored [where From = "''a@x''" and cfg = cfg_feb
      and date = "Some date_jan" and parsedate = ex_parsedate and import_keydata = ex_keyring
      and x = "''a@x''", OF 3 5]
  show ?thesis by blast
qed

text \<open>
  C3 as stated fails. \<open>process_incoming\<close> has no error result to look at: what is
  not a usable header reaches it as an empty or incomplete dictionary. With a header
  of \<open>a@x\<close> stored, an empty dictionary clears the stored header; a dictionary
  without \<open>key\<close> or without \<open>to\<close> raises \<open>KeyError\<close>; key data that is not
  base64 raises \<open>binascii.Error\<close>; and a valid header in a message without a Date
  header raises \<open>TypeError\<close> in the comparison of the dates.
\<close>

theorem invalid_header_counterexample:
  "peer_state cfg_feb ''a@x'' = Some stored_a
   \<and> peer_state (fst (process_incoming ex_parsedate ex_keyring ''a@x'' [] (Some date_feb) cfg_feb))
       ''a@x'' = Some []
   \<and> snd (process_incoming ex_parsedate ex_keyring ''a@x'' [(''to'', PStr ''a@x'')]
            (Some date_feb) cfg_feb) = Inl KeyError
   \<and> snd (process_incoming ex_parsedate ex_keyring ''a@x'' [(''key'', PStr ''AAAA'')]
            (Some date_feb) cfg_feb) = Inl KeyError
   \<and> snd (process_incoming ex_parsedate ex_keyring ''a@x''
            [(''to'', PStr ''a@x''), (''key'', PStr ''A'')] (Some date_feb) cfg_feb)
      = Inl BinasciiError
   \<and> snd (process_incoming ex_parsedate ex_keyring ''a@x'' hdr_a2 None cfg_feb) = Inl TypeError"
  by code_simp

text \<open>
  C9. After a commit \<open>_dict_old\<close> is a shallow copy of \<open>_dict\<close>, and both refer to
  the same dictionary of peers. For the account that stored \<open>a@x\<close>: a scope that
  adds the peer \<open>b@x\<close> completes, the new peer is in memory, but the comparison
  with \<open>_dict_old\<close> finds no difference and the file is not written; a scope that
  adds \<open>b@x\<close> and then raises restores \<open>_dict\<close> from \<open>_dict_old\<close> and the new
  peer is still there. The same happens through \<open>process_incoming\<close> for a second
  peer: its header is stored in memory and never reaches the file.
\<close>

theorem shallow_copy_shares_peers:
  "map_option d_peers (on_disk cfg_feb) = Some (Some [(''a@x'', stored_a)])
   \<and> snd (atomic_change [SetPeer ''b@x'' hdr_b] cfg_feb) = None
   \<and> peer_state (fst (atomic_change [SetPeer ''b@x'' hdr_b] cfg_feb)) ''b@x'' = Some hdr_b
   \<and> map_option d_peers (on_disk (fst (atomic_change [SetPeer ''b@x'' hdr_b] cfg_feb)))
      = Some (Some [(''a@x'', stored_a)])
   \<and> snd (atomic_change [SetPeer ''b@x'' hdr_b, Raise ValueError] cfg_feb) = Some ValueError
   \<and> peer_state (fst (atomic_change [SetPeer ''b@x'' hdr_b, Raise ValueError] cfg_feb)) ''b@x''
      = Some hdr_b
   \<and> peer_state (fst (process_incoming ex_parsedate ex_keyring ''b@x'' hdr_b (Some date_feb)
                        cfg_feb)) ''b@x''
      = Some (AList.update ''*keyhandle'' (PStr ''AAAC'')
               (AList.update ''*date'' (PStr date_feb) hdr_b))
   \<and> map_option d_peers
        (on_disk (fst (process_incoming ex_parsedate ex_keyring ''b@x'' hdr_b (Some date_feb)
                         cfg_feb)))
      = Some (Some [(''a@x'', stored_a)])"
  by code_simp

section \<open>The base64 codec\<close>

lemma index_of_nth:
  "distinct xs \<Longrightarrow> i < length xs \<Longrightarrow> index_of xs (xs ! i) = Some i"
proof (induction xs arbitrary: i)
  case Nil
  then show ?case by simp
next
  case (Cons x xs)
  show ?case
  proof (cases i)
    case 0
    then show ?thesis by simp
  next
    case (Suc j)
    with Cons.prems have "j < length xs" "distinct xs" "xs ! j \<noteq> x" by auto
    with Cons.IH [of j] Suc show ?thesis by auto
  qed
qed

lemma b64_alphabet_length: "length b64_alphabet = 64"
  by (simp add: b64_alphabet_def)

lemma b64_alphabet_distinct: "distinct b64_alphabet"
  by code_simp

lemma table_roundtrip: "i < 64 \<Longrightarrow> table_a2b_base64 (table_b2a_base64 i) = Some i"
  by (simp add: table_a2b_base64_def table_b2a_base64_def index_of_nth
      b64_alphabet_distinct b64_alphabet_length)

lemma b64_chars_plain:
  "list_all (\<lambda>c. (of_char c :: nat) < 128 \<and> \<not> py_isspace c \<and> c \<noteq> CHR '';'')
     (CHR ''='' # b64_alphabet)"
  by code_simp

lemma alphabet_no_pad: "CHR ''='' \<notin> set b64_alphabet"
  by code_simp

lemma table_in_alphabet: "i < 64 \<Longrightarrow> table_b2a_base64 i \<in> set b64_alphabet"
  by (simp add: table_b2a_base64_def b64_alphabet_length)

lemma table_not_pad: "i < 64 \<Longrightarrow> table_b2a_base64 i \<noteq> CHR ''=''"
  using table_in_alphabet alphabet_no_pad by metis

lemma a2b_data_step:
  assumes "i < 64"
  shows "a2b_loop 0 l p out (table_b2a_base64 i # cs) = a2b_loop (Suc 0) i 0 out cs"
    and "a2b_loop (Suc 0) l p out (table_b2a_base64 i # cs)
         = a2b_loop 2 (i mod 16) 0 (out @ [of_nat (l * 4 + i div 16)]) cs"
    and "a2b_loop 2 l p out (table_b2a_base64 i # cs)
         = a2b_loop 3 (i mod 4) 0 (out @ [of_nat (l * 16 + i div 4)]) cs"
    and "a2b_loop 3 l p out (table_b2a_base64 i # cs)
         = a2b_loop 0 0 0 (out @ [of_nat (l * 64 + i)]) cs"
  using assms by (simp_all add: table_roundtrip table_not_pad)

lemma a2b_pad_step:
  "a2b_loop 2 l 0 out (CHR ''='' # CHR ''='' # cs) = Some out"
  "a2b_loop 3 l 0 out (CHR ''='' # cs) = Some out"
  by simp_all

lemma a2b_nil: "a2b_loop 0 l p out [] = Some out"
  by simp

lemma byte_lt: "unat (a :: byte) < 256"
  using unsigned_less [of a] by simp

lemma sextet_bounds:
  fixes a b c :: nat
  assumes "a < 256" "b < 256" "c < 256"
  shows "a div 4 < 64" "a mod 4 * 16 + b div 16 < 64" "b mod 16 * 4 + c div 64 < 64"
    "c mod 64 < 64" "a mod 4 * 16 < 64" "b mod 16 * 4 < 64"
  using assms by auto

lemma sextet_parts:
  fixes b c :: nat
  assumes "b < 256" "c < 256"
  shows "b div 16 div 16 = 0" "b div 16 mod 16 = b div 16"
    "c div 64 div 4 = 0" "c div 64 mod 4 = c div 64"
  using assms by auto

lemma div_mod_small:
  fixes x y k :: nat
  shows "y < k \<Longrightarrow> (x * k + y) div k = x" "y < k \<Longrightarrow> (x * k + y) mod k = y"
  by simp_all

lemma sextets_join:
  fixes a b c :: nat
  assumes "b < 256" "c < 256"
  shows "a div 4 * 4 + (a mod 4 * 16 + b div 16) div 16 = a"
    "(a mod 4 * 16 + b div 16) mod 16 = b div 16"
    "b div 16 * 16 + (b mod 16 * 4 + c div 64) div 4 = b"
    "(b mod 16 * 4 + c div 64) mod 4 = c div 64"
    "c div 64 * 64 + c mod 64 = c"
    "a div 4 * 4 + (a mod 4 * 16) div 16 = a"
    "(a mod 4 * 16) mod 16 = 0"
    "b div 16 * 16 + (b mod 16 * 4) div 4 = b"
proof -
  from assms have b: "b div 16 < 16" and c: "c div 64 < 4" by auto
  show "a div 4 * 4 + (a mod 4 * 16 + b div 16) div 16 = a" using b by (simp add: div_mod_small)
  show "(a mod 4 * 16 + b div 16) mod 16 = b div 16" using b by (simp add: div_mod_small)
  show "b div 16 * 16 + (b mod 16 * 4 + c div 64) div 4 = b" using c by (simp add: div_mod_small)
  show "(b mod 16 * 4 + c div 64) mod 4 = c div 64" using c by (simp add: div_mod_small)
  show "c div 64 * 64 + c mod 64 = c" by simp
  show "a div 4 * 4 + (a mod 4 * 16) div 16 = a" by simp
  show "(a mod 4 * 16) mod 16 = 0" by simp
  show "b div 16 * 16 + (b mod 16 * 4) div 4 = b" by simp
qed

lemma a2b_loop_encoded: "a2b_loop 0 l p out (b2a_base64 bs) = Some (out @ bs)"
proof (induction bs arbitrary: l p out rule: b2a_base64.induct)
  case 1
  then show ?case by (simp add: a2b_nil del: a2b_loop.simps of_nat_add of_nat_mult)
next
  case (2 a)
  note s = sextet_bounds [OF byte_lt [of a] byte_lt [of a] byte_lt [of a]]
    sextets_join [OF byte_lt [of a] byte_lt [of a]]
    sextet_parts [OF byte_lt [of a] byte_lt [of a]]
  show ?case
    by (simp add: a2b_data_step s a2b_pad_step del: a2b_loop.simps of_nat_add of_nat_mult)
next
  case (3 a b)
  note s = sextet_bounds [OF byte_lt [of a] byte_lt [of b] byte_lt [of b]]
    sextets_join [OF byte_lt [of b] byte_lt [of b]]
    sextet_parts [OF byte_lt [of b] byte_lt [of b]]
  show ?case
    by (simp add: a2b_data_step s a2b_pad_step del: a2b_loop.simps of_nat_add of_nat_mult)
next
  case (4 a b c rest)
  note s = sextet_bounds [OF byte_lt [of a] byte_lt [of b] byte_lt [of c]]
    sextets_join [OF byte_lt [of b] byte_lt [of c]]
    sextet_parts [OF byte_lt [of b] byte_lt [of c]]
  show ?case
    by (simp add: a2b_data_step s "4.IH" del: a2b_loop.simps of_nat_add of_nat_mult)
qed

lemma b2a_chars: "set (b2a_base64 bs) \<subseteq> set (CHR ''='' # b64_alphabet)"
proof (induction bs rule: b2a_base64.induct)
  case 1
  then show ?case by simp
next
  case (2 a)
  note s = sextet_bounds [OF byte_lt [of a] byte_lt [of a] byte_lt [of a]]
  show ?case by (simp add: table_in_alphabet s)
next
  case (3 a b)
  note s = sextet_bounds [OF byte_lt [of a] byte_lt [of b] byte_lt [of b]]
  show ?case by (simp add: table_in_alphabet s)
next
  case (4 a b c rest)
  note s = sextet_bounds [OF byte_lt [of a] byte_lt [of b] byte_lt [of c]]
  from "4.IH" show ?case by (simp add: table_in_alphabet s)
qed

lemma b64encode_chars:
  "c \<in> set (b64encode bs) \<Longrightarrow>
   (of_char c :: nat) < 128 \<and> \<not> py_isspace c \<and> c \<noteq> CHR '';''"
  using b2a_chars [of bs] b64_chars_plain
  unfolding b64encode_def list_all_iff by blast

lemma b64encode_nonempty: "bs \<noteq> [] \<Longrightarrow> b64encode bs \<noteq> []"
  by (cases bs rule: b2a_base64.cases) (simp_all add: b64encode_def)

lemma b64_roundtrip: "b64decode (b64encode bs) = Some bs"
proof -
  have "\<not> list_ex (\<lambda>c. 128 \<le> (of_char c :: nat)) (b64encode bs)"
    unfolding list_ex_iff
  proof
    assume "\<exists>c\<in>set (b64encode bs). 128 \<le> (of_char c :: nat)"
    then obtain c where c: "c \<in> set (b64encode bs)" "128 \<le> (of_char c :: nat)" by blast
    from b64encode_chars [OF c(1)] have "(of_char c :: nat) < 128" by simp
    with c(2) show False by simp
  qed
  then show ?thesis
    by (simp add: b64decode_def a2b_base64_def b64encode_def a2b_loop_encoded)
qed

section \<open>String methods\<close>

lemma py_split_nonempty: "py_split c s \<noteq> []"
  by (induction s) (auto split: list.splits)

lemma py_split_append: "py_split c (h @ c # t) = py_split c h @ py_split c t"
proof (induction h)
  case Nil
  then show ?case by simp
next
  case (Cons x h)
  obtain w ws where w: "py_split c h = w # ws"
    using py_split_nonempty [of c h] by (cases "py_split c h") auto
  with Cons show ?case by simp
qed

lemma py_split_none: "c \<notin> set t \<Longrightarrow> py_split c t = [t]"
  by (induction t) auto

lemma rstrip_append:
  assumes "x \<noteq> []" and "\<not> py_isspace (last x)"
  shows "py_rstrip (x @ y) = x @ py_rstrip y"
proof -
  from assms have "dropWhile py_isspace (rev x) = rev x"
    by (cases x rule: rev_cases) auto
  then have "dropWhile py_isspace (rev y @ rev x) = dropWhile py_isspace (rev y) @ rev x"
    by (auto simp: dropWhile_append)
  then show ?thesis by (simp add: py_rstrip_def)
qed

lemma rstrip_idem: "py_rstrip (py_rstrip s) = py_rstrip s"
proof -
  have "dropWhile py_isspace (dropWhile py_isspace (rev s)) = dropWhile py_isspace (rev s)"
    by (rule dropWhile_idem)
  then show ?thesis by (simp add: py_rstrip_def)
qed

lemma strip_rstrip: "py_strip (py_rstrip s) = py_strip s"
  by (simp add: py_strip_def rstrip_idem)

lemma lstrip_spaces:
  "list_all py_isspace ws \<Longrightarrow> n \<noteq> [] \<Longrightarrow> \<not> py_isspace (hd n) \<Longrightarrow>
   py_lstrip (ws @ n @ r) = n @ r"
  by (induction ws) (auto simp: py_lstrip_def neq_Nil_conv)

lemma strip_plain:
  assumes "n \<noteq> []" and "list_all (\<lambda>c. \<not> py_isspace c) n"
  shows "py_strip n = n"
proof -
  from assms have l: "\<not> py_isspace (last n)" and h: "\<not> py_isspace (hd n)"
    by (auto simp: list_all_iff)
  from rstrip_append [OF assms(1) l, of "[]"] have "py_rstrip n = n"
    by (simp add: py_rstrip_def)
  moreover from lstrip_spaces [of "[]" n "[]"] assms(1) h have "py_lstrip n = n" by simp
  ultimately show ?thesis by (simp add: py_strip_def)
qed

lemma takeWhile_upto: "c \<notin> set n \<Longrightarrow> takeWhile (\<lambda>x. x \<noteq> c) (n @ c # r) = n"
  by (induction n) auto

lemma dropWhile_upto: "c \<notin> set n \<Longrightarrow> dropWhile (\<lambda>x. x \<noteq> c) (n @ c # r) = c # r"
  by (induction n) auto

lemma split1_at:
  "c \<notin> set n \<Longrightarrow> py_split1 c (n @ c # r) = [n, r]"
  by (simp add: py_split1_def takeWhile_upto dropWhile_upto)

text \<open>A segment \<open>name=value\<close>, with blanks in front of the name: after stripping and
  splitting at the first \<open>=\<close> it is the name and the stripped value.\<close>

lemma attr_segment:
  assumes "list_all py_isspace ws" and "n \<noteq> []"
    and "list_all (\<lambda>c. \<not> py_isspace c \<and> c \<noteq> CHR ''='') n"
  shows "py_strip (ws @ n @ CHR ''='' # v) = n @ CHR ''='' # py_rstrip v"
    and "map py_strip (py_split1 CHR ''='' (py_strip (ws @ n @ CHR ''='' # v))) = [n, py_strip v]"
proof -
  have sp: "\<not> py_isspace CHR ''=''" by code_simp
  from assms(2,3) have h: "\<not> py_isspace (hd n)" and eq: "CHR ''='' \<notin> set n"
    and pl: "list_all (\<lambda>c. \<not> py_isspace c) n"
    by (auto simp: list_all_iff)
  have "py_rstrip ((ws @ n @ [CHR ''='']) @ v) = (ws @ n @ [CHR ''='']) @ py_rstrip v"
    by (rule rstrip_append) (simp_all add: sp)
  then have r: "py_rstrip (ws @ n @ CHR ''='' # v) = ws @ n @ CHR ''='' # py_rstrip v"
    by simp
  from lstrip_spaces [OF assms(1,2) h, of "CHR ''='' # py_rstrip v"]
  show s: "py_strip (ws @ n @ CHR ''='' # v) = n @ CHR ''='' # py_rstrip v"
    by (simp add: py_strip_def r)
  show "map py_strip (py_split1 CHR ''='' (py_strip (ws @ n @ CHR ''='' # v))) = [n, py_strip v]"
    by (simp add: s split1_at [OF eq] strip_plain [OF assms(2) pl] strip_rstrip)
qed

lemma concat_split_ws: "concat (split_ws w s) = w @ filter (\<lambda>c. \<not> py_isspace c) s"
  by (induction s arbitrary: w) auto

lemma filter_dropWhile_space:
  "filter (\<lambda>c. \<not> py_isspace c) (dropWhile py_isspace s) = filter (\<lambda>c. \<not> py_isspace c) s"
  by (induction s) auto

lemma filter_rstrip:
  "filter (\<lambda>c. \<not> py_isspace c) (py_rstrip s) = filter (\<lambda>c. \<not> py_isspace c) s"
proof -
  have "filter (\<lambda>c. \<not> py_isspace c) (dropWhile py_isspace (rev s))
        = filter (\<lambda>c. \<not> py_isspace c) (rev s)"
    by (rule filter_dropWhile_space)
  then show ?thesis
    unfolding py_rstrip_def rev_filter [symmetric] by (simp add: rev_filter)
qed

lemma filter_strip:
  "filter (\<lambda>c. \<not> py_isspace c) (py_strip s) = filter (\<lambda>c. \<not> py_isspace c) s"
  by (simp add: py_strip_def py_lstrip_def filter_dropWhile_space filter_rstrip)

text \<open>\<open>"".join(value.split())\<close> drops the whitespace.\<close>

lemma join_split_strip:
  "concat (py_split_ws (py_strip s)) = filter (\<lambda>c. \<not> py_isspace c) s"
  by (simp add: py_split_ws_def concat_split_ws filter_strip)

lemma set_rstrip: "set (py_rstrip s) \<subseteq> set s"
  using set_dropWhileD [of _ py_isspace "rev s"] by (auto simp: py_rstrip_def)

lemma dropWhile_full_length:
  assumes "length xs \<le> length (dropWhile P xs)"
  shows "dropWhile P xs = xs"
proof (cases xs)
  case Nil
  then show ?thesis by simp
next
  case (Cons x ys)
  show ?thesis
  proof (cases "P x")
    case True
    with Cons assms have "Suc (length ys) \<le> length (dropWhile P ys)" by simp
    with length_dropWhile_le [of P ys] show ?thesis by simp
  next
    case False
    with Cons show ?thesis by simp
  qed
qed

lemma strip_fixed_rstrip:
  assumes "py_strip a = a"
  shows "py_rstrip a = a"
proof -
  have "length (py_lstrip (py_rstrip a)) \<le> length (py_rstrip a)"
    by (simp add: py_lstrip_def length_dropWhile_le)
  with assms have "length a \<le> length (py_rstrip a)"
    by (simp add: py_strip_def)
  then have "length (rev a) \<le> length (dropWhile py_isspace (rev a))"
    by (simp add: py_rstrip_def)
  then have "dropWhile py_isspace (rev a) = rev a"
    by (rule dropWhile_full_length)
  then show ?thesis by (simp add: py_rstrip_def)
qed

section \<open>Repeated attributes\<close>

lemma header_parts_append:
  assumes "CHR '';'' \<notin> set t"
  shows "header_parts (h @ CHR '';'' # t)
         = header_parts h @ (if py_strip t = [] then [] else [py_strip t])"
  by (simp add: header_parts_def py_split_append py_split_none [OF assms])

lemma parse_parts_pair:
  assumes "parse_parts (x # xs) rd ea = Inr r" and "error r = None"
  obtains name val where "map py_strip (py_split1 CHR ''='' x) = [name, val]"
proof (cases "map py_strip (py_split1 CHR ''='' x)")
  case Nil
  with assms show ?thesis by (auto simp: ac_error_def)
next
  case (Cons name rest)
  note c1 = Cons
  show ?thesis
  proof (cases rest)
    case Nil
    with c1 assms show ?thesis by (auto simp: ac_error_def)
  next
    case (Cons val rest2)
    note c2 = Cons
    show ?thesis
    proof (cases rest2)
      case (Cons z zs)
      with c1 c2 assms show ?thesis by (auto simp: ac_error_def)
    next
      case Nil
      with c1 c2 that show ?thesis by simp
    qed
  qed
qed

text \<open>A segment after which the loop goes on leaves a state that does not depend on
  the segments that follow.\<close>

lemma parse_parts_step:
  assumes "parse_parts (x # xs) rd ea = Inr r" and "error r = None"
  shows "\<exists>rd1 ea1. \<forall>ys. parse_parts (x # ys) rd ea = parse_parts ys rd1 ea1"
proof -
  from assms obtain name val where kv: "map py_strip (py_split1 CHR ''='' x) = [name, val]"
    by (rule parse_parts_pair)
  show ?thesis
  proof (cases "name = ''keydata''")
    case True
    with assms kv obtain b where "decode_keydata (concat (py_split_ws val)) = Some b"
      by (cases "decode_keydata (concat (py_split_ws val))") (auto simp: ac_error_def)
    with kv True have "\<forall>ys. parse_parts (x # ys) rd ea
        = parse_parts ys (rd\<lparr>rd_keydata := Some b\<rparr>) ea" by simp
    then show ?thesis by blast
  next
    case nk: False
    show ?thesis
    proof (cases "name = ''prefer-encrypt''")
      case True
      with assms kv have "\<not> (val \<noteq> ''nopreference'' \<and> val \<noteq> ''mutual'')"
        by (auto simp: ac_error_def split: if_splits)
      with kv True have "\<forall>ys. parse_parts (x # ys) rd ea
          = parse_parts ys (rd\<lparr>rd_prefer_encrypt := Some val\<rparr>) ea" by auto
      then show ?thesis by blast
    next
      case np: False
      show ?thesis
      proof (cases "name = ''addr''")
        case True
        with kv have "\<forall>ys. parse_parts (x # ys) rd ea
            = parse_parts ys (rd\<lparr>rd_addr := Some val\<rparr>) ea" by simp
        then show ?thesis by blast
      next
        case na: False
        from assms kv nk np na obtain c cs where n: "name = c # cs"
          by (cases name) auto
        with assms kv nk np na have "c = CHR ''_''"
          by (auto simp: ac_error_def split: if_splits)
        with kv nk np na n have "\<forall>ys. parse_parts (x # ys) rd ea
            = parse_parts ys rd (AList.update name val ea)" by simp
        then show ?thesis by blast
      qed
    qed
  qed
qed

lemma parse_parts_append:
  "parse_parts ps rd ea = Inr r \<Longrightarrow> error r = None \<Longrightarrow>
   \<exists>rd' ea'. (\<forall>qs. parse_parts (ps @ qs) rd ea = parse_parts qs rd' ea')
             \<and> r = parse_finish rd' ea'"
proof (induction ps arbitrary: rd ea)
  case Nil
  then show ?case by auto
next
  case (Cons x xs)
  from parse_parts_step [OF Cons.prems] obtain rd1 ea1 where
    s: "\<And>ys. parse_parts (x # ys) rd ea = parse_parts ys rd1 ea1" by blast
  from s [of xs] Cons.prems(1) have "parse_parts xs rd1 ea1 = Inr r" by simp
  from Cons.IH [OF this Cons.prems(2)] obtain rd' ea' where
    "\<And>qs. parse_parts (xs @ qs) rd1 ea1 = parse_parts qs rd' ea'" "r = parse_finish rd' ea'"
    by blast
  with s show ?case by auto
qed

lemma parse_finish_ok:
  assumes "error (parse_finish rd ea) = None"
  shows "parse_finish (rd\<lparr>rd_addr := Some v\<rparr>) ea = (parse_finish rd ea)\<lparr>addr := Some v\<rparr>"
    and "parse_finish (rd\<lparr>rd_keydata := Some b\<rparr>) ea = (parse_finish rd ea)\<lparr>keydata := Some b\<rparr>"
  using assms by (auto simp: parse_finish_def ac_error_def split: if_splits)

lemma parse_append_segment:
  assumes "parse_ac_headervalue h = Inr r" and "error r = None" and "CHR '';'' \<notin> set t"
    and "py_strip t \<noteq> []"
  shows "\<exists>rd ea. r = parse_finish rd ea
           \<and> parse_ac_headervalue (h @ CHR '';'' # t) = parse_parts [py_strip t] rd ea"
proof -
  from assms(1) have p: "parse_parts (header_parts h)
      \<lparr>rd_keydata = None, rd_prefer_encrypt = Some ''nopreference'', rd_addr = None\<rparr> [] = Inr r"
    by (simp add: parse_ac_headervalue_def filter_object_truth_def)
  from parse_parts_append [OF p assms(2)] obtain rd ea where
    a: "\<And>qs. parse_parts (header_parts h @ qs)
          \<lparr>rd_keydata = None, rd_prefer_encrypt = Some ''nopreference'', rd_addr = None\<rparr> []
        = parse_parts qs rd ea" and f: "r = parse_finish rd ea" by blast
  have "parse_ac_headervalue (h @ CHR '';'' # t) = parse_parts [py_strip t] rd ea"
    using a [of "[py_strip t]"] assms(4)
    by (simp add: parse_ac_headervalue_def filter_object_truth_def
        header_parts_append [OF assms(3)])
  with f show ?thesis by blast
qed

lemma plain_names:
  "list_all (\<lambda>c. \<not> py_isspace c \<and> c \<noteq> CHR ''='') ''addr''"
  "list_all (\<lambda>c. \<not> py_isspace c \<and> c \<noteq> CHR ''='') ''keydata''"
  "list_all (\<lambda>c. \<not> py_isspace c \<and> c \<noteq> CHR ''='') ''prefer-encrypt''"
  "list_all py_isspace '' ''"
  by code_simp+

text \<open>
  C10. A header value that parses without error already has its \<open>addr\<close> and
  \<open>keydata\<close>. With one more \<open>addr=\<close> segment after it the parser still returns
  no error, and the result has the later address; with one more \<open>keydata=\<close> segment
  whose value decodes, the result has the later key data. Nothing reports the
  repetition.
\<close>

theorem repeated_attribute_last_wins:
  assumes "parse_ac_headervalue h = Inr r" and "error r = None" and "CHR '';'' \<notin> set v"
  shows "parse_ac_headervalue (h @ ''; addr='' @ v) = Inr (r\<lparr>addr := Some (py_strip v)\<rparr>)
    \<and> (decode_keydata (concat (py_split_ws (py_strip v))) = Some b \<longrightarrow>
         parse_ac_headervalue (h @ ''; keydata='' @ v) = Inr (r\<lparr>keydata := Some b\<rparr>))"
proof
  let ?t = "'' addr='' @ v"
  have st: "py_strip ?t = ''addr='' @ py_rstrip v"
    and kv: "map py_strip (py_split1 CHR ''='' (py_strip ?t)) = [''addr'', py_strip v]"
    using attr_segment [OF plain_names(4) _ plain_names(1), of v] by simp_all
  have t: "CHR '';'' \<notin> set ?t" "py_strip ?t \<noteq> []" using assms(3) st by simp_all
  from parse_append_segment [OF assms(1,2) t] obtain rd ea where
    r: "r = parse_finish rd ea"
    and p: "parse_ac_headervalue (h @ CHR '';'' # ?t) = parse_parts [py_strip ?t] rd ea"
    by blast
  from r assms(2) have e: "error (parse_finish rd ea) = None" by simp
  have "parse_parts [py_strip ?t] rd ea = Inr (parse_finish (rd\<lparr>rd_addr := Some (py_strip v)\<rparr>) ea)"
    using kv by simp
  with p r parse_finish_ok(1) [OF e]
  show "parse_ac_headervalue (h @ ''; addr='' @ v) = Inr (r\<lparr>addr := Some (py_strip v)\<rparr>)"
    by simp
next
  let ?t = "'' keydata='' @ v"
  have st: "py_strip ?t = ''keydata='' @ py_rstrip v"
    and kv: "map py_strip (py_split1 CHR ''='' (py_strip ?t)) = [''keydata'', py_strip v]"
    using attr_segment [OF plain_names(4) _ plain_names(2), of v] by simp_all
  have t: "CHR '';'' \<notin> set ?t" "py_strip ?t \<noteq> []" using assms(3) st by simp_all
  from parse_append_segment [OF assms(1,2) t] obtain rd ea where
    r: "r = parse_finish rd ea"
    and p: "parse_ac_headervalue (h @ CHR '';'' # ?t) = parse_parts [py_strip ?t] rd ea"
    by blast
  from r assms(2) have e: "error (parse_finish rd ea) = None" by simp
  show "decode_keydata (concat (py_split_ws (py_strip v))) = Some b \<longrightarrow>
         parse_ac_headervalue (h @ ''; keydata='' @ v) = Inr (r\<lparr>keydata := Some b\<rparr>)"
  proof
    assume d: "decode_keydata (concat (py_split_ws (py_strip v))) = Some b"
    have "parse_parts [py_strip ?t] rd ea = Inr (parse_finish (rd\<lparr>rd_keydata := Some b\<rparr>) ea)"
      using kv d by simp
    with p r parse_finish_ok(2) [OF e]
    show "parse_ac_headervalue (h @ ''; keydata='' @ v) = Inr (r\<lparr>keydata := Some b\<rparr>)"
      by simp
  qed
qed

text \<open>C10 for two \<open>addr=\<close> segments and for two \<open>keydata=\<close> segments.\<close>

theorem repeated_attribute_last_wins_witness:
  "parse_ac_headervalue ''addr=a@x; keydata=AAAA; addr=b@x''
     = Inr \<lparr>keydata = Some [0, 0, 0], addr = Some ''b@x'',
            prefer_encrypt = Some ''nopreference'', extra_attr = Some [], error = None\<rparr>
   \<and> parse_ac_headervalue ''addr=a@x; keydata=AAAA; keydata=AAAB''
     = Inr \<lparr>keydata = Some [0, 0, 1], addr = Some ''a@x'',
            prefer_encrypt = Some ''nopreference'', extra_attr = Some [], error = None\<rparr>"
proof -
  let ?r = "\<lparr>keydata = Some [0, 0, 0], addr = Some ''a@x'',
            prefer_encrypt = Some ''nopreference'', extra_attr = Some [], error = None\<rparr>"
  have 1: "parse_ac_headervalue ''addr=a@x; keydata=AAAA'' = Inr ?r" by code_simp
  have 2: "error ?r = None" by simp
  have 3: "CHR '';'' \<notin> set ''b@x''" by simp
  have 4: "CHR '';'' \<notin> set ''AAAB''" by simp
  have 5: "py_strip ''b@x'' = ''b@x''" by code_simp
  have 6: "decode_keydata (concat (py_split_ws (py_strip ''AAAB''))) = Some [0, 0, 1]"
    by code_simp
  from repeated_attribute_last_wins [OF 1 2 3] 5
  have a: "parse_ac_headervalue ''addr=a@x; keydata=AAAA; addr=b@x''
           = Inr (?r\<lparr>addr := Some ''b@x''\<rparr>)" by simp
  from repeated_attribute_last_wins [OF 1 2 4, of "[0, 0, 1]"] 6
  have b: "parse_ac_headervalue ''addr=a@x; keydata=AAAA; keydata=AAAB''
           = Inr (?r\<lparr>keydata := Some [0, 0, 1]\<rparr>)" by simp
  from a b show ?thesis by simp
qed

section \<open>Encoding and parsing back\<close>

lemma space_chars: "py_isspace CHR '' ''" "py_isspace CHR 0x0A"
  by code_simp+

lemma filter_split_lines:
  "filter (\<lambda>c. \<not> py_isspace c) (concat (split_lines n ''  '' m v))
   = filter (\<lambda>c. \<not> py_isspace c) (take (n * m) v)"
proof (induction n arbitrary: v)
  case 0
  then show ?case by simp
next
  case (Suc n)
  have "take (m + n * m) v = take m v @ take (n * m) (drop m v)"
    by (rule take_add)
  with Suc [of "drop m v"] show ?case by (simp add: space_chars)
qed

lemma set_split_lines:
  "set (concat (split_lines n ''  '' m v)) \<subseteq> insert CHR '' '' (insert CHR 0x0A (set v))"
proof (induction n arbitrary: v)
  case 0
  then show ?case by simp
next
  case (Suc n)
  have "set (take m v) \<subseteq> set v" "set (drop m v) \<subseteq> set v"
    by (auto dest: in_set_takeD in_set_dropD)
  with Suc [of "drop m v"] show ?case by auto
qed

lemma indented_split_plain:
  assumes "list_all (\<lambda>c. \<not> py_isspace c \<and> c \<noteq> CHR '';'') key"
  obtains ks where "indented_split key = Inr ks"
    and "filter (\<lambda>c. \<not> py_isspace c) ks = key" and "CHR '';'' \<notin> set ks"
proof -
  let ?ls = "concat (split_lines ((length key + 77) div 78) ''  '' 78 key)"
  from assms have nl: "CHR 0x0A \<notin> set key"
    using space_chars(2) by (auto simp: list_all_iff)
  have len: "length key \<le> (length key + 77) div 78 * 78" by presburger
  from assms have plain: "filter (\<lambda>c. \<not> py_isspace c) key = key"
    by (auto simp: list_all_iff filter_id_conv)
  have 1: "indented_split key = Inr (py_rstrip ?ls)"
    using nl by (simp add: indented_split_def)
  have 2: "filter (\<lambda>c. \<not> py_isspace c) (py_rstrip ?ls) = key"
    using len plain by (simp add: filter_rstrip filter_split_lines)
  have "CHR '';'' \<notin> set ?ls"
    using set_split_lines [of "(length key + 77) div 78" 78 key] assms
    by (auto simp: list_all_iff)
  with set_rstrip [of ?ls] have 3: "CHR '';'' \<notin> set (py_rstrip ?ls)" by auto
  from 1 2 3 that show ?thesis by blast
qed

lemma b64encode_plain: "list_all (\<lambda>c. \<not> py_isspace c \<and> c \<noteq> CHR '';'') (b64encode kd)"
  using b64encode_chars [of _ kd] by (auto simp: list_all_iff)

text \<open>The \<open>keydata\<close> segment written by the encoder gives the key back.\<close>

lemma keydata_segment:
  assumes "filter (\<lambda>c. \<not> py_isspace c) ks = b64encode kd"
  shows "map py_strip (py_split1 CHR ''='' (py_strip ('' keydata='' @ CHR 0x0A # ks)))
         = [''keydata'', py_strip (CHR 0x0A # ks)]"
    and "decode_keydata (concat (py_split_ws (py_strip (CHR 0x0A # ks)))) = Some kd"
proof -
  show "map py_strip (py_split1 CHR ''='' (py_strip ('' keydata='' @ CHR 0x0A # ks)))
         = [''keydata'', py_strip (CHR 0x0A # ks)]"
    using attr_segment(2) [OF plain_names(4) _ plain_names(2), of "CHR 0x0A # ks"] by simp
  show "decode_keydata (concat (py_split_ws (py_strip (CHR 0x0A # ks)))) = Some kd"
    using assms by (simp add: join_split_strip space_chars decode_keydata_def b64_roundtrip)
qed

lemma addr_segment:
  assumes "py_strip a = a"
  shows "py_strip (''addr='' @ a) \<noteq> []"
    and "map py_strip (py_split1 CHR ''='' (py_strip (''addr='' @ a))) = [''addr'', a]"
  using attr_segment [of "[]" "''addr''" a] plain_names(1) assms by simp_all

lemma pref_segment:
  "py_strip '' prefer-encrypt=mutual'' \<noteq> []"
  "map py_strip (py_split1 CHR ''='' (py_strip '' prefer-encrypt=mutual''))
   = [''prefer-encrypt'', ''mutual'']"
  by code_simp+

lemma header_parts_single:
  "CHR '';'' \<notin> set t \<Longrightarrow> py_strip t \<noteq> [] \<Longrightarrow> header_parts t = [py_strip t]"
  by (simp add: header_parts_def py_split_none)

text \<open>
  C1 (amended). For an address without a semicolon and without whitespace at its
  ends, key data that is not empty, and the preference \<open>nopreference\<close> or
  \<open>mutual\<close>, the encoder returns a header value, and parsing it gives a result
  without error that has the address, the key data and the preference.
\<close>

theorem header_roundtrip:
  assumes "kd \<noteq> []" and "CHR '';'' \<notin> set a" and "py_strip a = a"
    and "pref = ''nopreference'' \<or> pref = ''mutual''"
  shows "\<exists>h. make_ac_header_value a kd pref = Inr h
           \<and> parse_ac_headervalue h
               = Inr \<lparr>keydata = Some kd, addr = Some a, prefer_encrypt = Some pref,
                      extra_attr = Some [], error = None\<rparr>"
proof -
  from indented_split_plain [OF b64encode_plain [of kd]] obtain ks where
    ks: "indented_split (b64encode kd) = Inr ks"
    and fk: "filter (\<lambda>c. \<not> py_isspace c) ks = b64encode kd" and sk: "CHR '';'' \<notin> set ks"
    by blast
  let ?A = "''addr='' @ a" and ?K = "'' keydata='' @ CHR 0x0A # ks"
  let ?P = "'' prefer-encrypt=mutual''"
  let ?rd0 = "\<lparr>rd_keydata = None, rd_prefer_encrypt = Some ''nopreference'', rd_addr = None\<rparr>"
  note ka = addr_segment [OF assms(3)]
  note kk = keydata_segment [OF fk]
  have sA: "CHR '';'' \<notin> set ?A" and sK: "CHR '';'' \<notin> set ?K" and sP: "CHR '';'' \<notin> set ?P"
    using assms(2) sk by simp_all
  have nK: "py_strip ?K \<noteq> []" using kk(1) by (auto simp: py_split1_def)
  have pA: "header_parts ?A = [py_strip ?A]"
    by (rule header_parts_single [OF sA ka(1)])
  from assms(4) show ?thesis
  proof
    assume p: "pref = ''nopreference''"
    have m: "make_ac_header_value a kd pref = Inr (?A @ CHR '';'' # ?K)"
      using assms(1) ks p by (simp add: make_ac_header_value_def)
    have "header_parts (?A @ CHR '';'' # ?K) = [py_strip ?A, py_strip ?K]"
      using header_parts_append [OF sK, of ?A] pA nK by simp
    then have "parse_ac_headervalue (?A @ CHR '';'' # ?K)
          = parse_parts [py_strip ?A, py_strip ?K] ?rd0 []"
      by (simp add: parse_ac_headervalue_def filter_object_truth_def)
    also have "\<dots> = Inr \<lparr>keydata = Some kd, addr = Some a, prefer_encrypt = Some pref,
                      extra_attr = Some [], error = None\<rparr>"
      using ka(2) kk p by (simp add: parse_finish_def)
    finally show ?thesis using m by blast
  next
    assume p: "pref = ''mutual''"
    have m: "make_ac_header_value a kd pref = Inr ((?A @ CHR '';'' # ?P) @ CHR '';'' # ?K)"
      using assms(1) ks p by (simp add: make_ac_header_value_def)
    have "header_parts (?A @ CHR '';'' # ?P) = [py_strip ?A, py_strip ?P]"
      using header_parts_append [OF sP, of ?A] pA pref_segment(1) by simp
    then have "header_parts ((?A @ CHR '';'' # ?P) @ CHR '';'' # ?K)
          = [py_strip ?A, py_strip ?P, py_strip ?K]"
      using header_parts_append [OF sK, of "?A @ CHR '';'' # ?P"] nK by simp
    then have "parse_ac_headervalue ((?A @ CHR '';'' # ?P) @ CHR '';'' # ?K)
          = parse_parts [py_strip ?A, py_strip ?P, py_strip ?K] ?rd0 []"
      by (simp add: parse_ac_headervalue_def filter_object_truth_def)
    also have "\<dots> = Inr \<lparr>keydata = Some kd, addr = Some a, prefer_encrypt = Some pref,
                      extra_attr = Some [], error = None\<rparr>"
      using ka(2) kk pref_segment(2) p by (simp add: parse_finish_def)
    finally show ?thesis using m by blast
  qed
qed

text \<open>The amended C1 for the address \<open>a@b.c\<close>, five bytes of key data and
  \<open>mutual\<close>.\<close>

theorem header_roundtrip_witness:
  "make_ac_header_value ''a@b.c'' [1, 2, 3, 4, 5] ''mutual''
     = Inr (''addr=a@b.c; prefer-encrypt=mutual; keydata='' @ [CHR 0x0A] @ ''  AQIDBAU='')
   \<and> parse_ac_headervalue
        (''addr=a@b.c; prefer-encrypt=mutual; keydata='' @ [CHR 0x0A] @ ''  AQIDBAU='')
     = Inr \<lparr>keydata = Some [1, 2, 3, 4, 5], addr = Some ''a@b.c'',
            prefer_encrypt = Some ''mutual'', extra_attr = Some [], error = None\<rparr>"
proof -
  have 1: "[1, 2, 3, 4, 5 :: byte] \<noteq> []" by simp
  have 2: "CHR '';'' \<notin> set ''a@b.c''" by simp
  have 3: "py_strip ''a@b.c'' = ''a@b.c''" by code_simp
  have 4: "''mutual'' = ''nopreference'' \<or> ''mutual'' = ''mutual''" by simp
  have 5: "make_ac_header_value ''a@b.c'' [1, 2, 3, 4, 5] ''mutual''
     = Inr (''addr=a@b.c; prefer-encrypt=mutual; keydata='' @ [CHR 0x0A] @ ''  AQIDBAU='')"
    by code_simp
  from header_roundtrip [OF 1 2 3 4] 5 show ?thesis by auto
qed

text \<open>
  C1 as stated fails for some addresses. The encoder writes the address as it is:
  with a semicolon in it the header value has a segment without \<open>=\<close> and the parser
  returns the error \<open>malformed setting\<close>; with a blank in front, the parser returns
  the address without the blank.
\<close>

theorem address_roundtrip_counterexample:
  "make_ac_header_value ''a;b'' [1] ''nopreference''
     = Inr (''addr=a;b; keydata='' @ [CHR 0x0A] @ ''  AQ=='')
   \<and> parse_ac_headervalue (''addr=a;b; keydata='' @ [CHR 0x0A] @ ''  AQ=='')
     = Inr (ac_error ''malformed setting'')
   \<and> make_ac_header_value '' a@b.c'' [1] ''nopreference''
     = Inr (''addr= a@b.c; keydata='' @ [CHR 0x0A] @ ''  AQ=='')
   \<and> parse_ac_headervalue (''addr= a@b.c; keydata='' @ [CHR 0x0A] @ ''  AQ=='')
     = Inr \<lparr>keydata = Some [1], addr = Some ''a@b.c'',
            prefer_encrypt = Some ''nopreference'', extra_attr = Some [], error = None\<rparr>"
  by code_simp

section \<open>Atomic changes of the text properties\<close>


lemma deref_objects: "deref cfg = (\<lambda>a. case objects cfg a of None \<Rightarrow> [] | Some p \<Rightarrow> p)"
  by (rule ext) (simp add: deref_def)

lemma exec_stmt_text_only:
  assumes "text_only s" and "exec_stmt s cfg = (cfg', e)"
  shows "objects cfg' = objects cfg \<and> c_dict_old cfg' = c_dict_old cfg
         \<and> on_disk cfg' = on_disk cfg"
  using assms
  by (cases s) (auto simp: set_attr_def split: option.splits if_splits attr.splits)

lemma exec_body_text_only:
  assumes "list_all text_only body" and "exec_body body cfg = (cfg', e)"
  shows "objects cfg' = objects cfg \<and> c_dict_old cfg' = c_dict_old cfg
         \<and> on_disk cfg' = on_disk cfg"
  using assms
proof (induction body arbitrary: cfg)
  case Nil
  then show ?case by simp
next
  case (Cons s ss)
  obtain c1 e1 where s: "exec_stmt s cfg = (c1, e1)" by (cases "exec_stmt s cfg") auto
  from Cons.prems(1) have t: "text_only s" "list_all text_only ss" by simp_all
  note k = exec_stmt_text_only [OF t(1) s]
  show ?case
  proof (cases e1)
    case None
    with Cons.prems(2) s have "exec_body ss c1 = (cfg', e)" by simp
    from Cons.IH [OF t(2) this] k show ?thesis by simp
  next
    case (Some x)
    with Cons.prems(2) s k show ?thesis by auto
  qed
qed

text \<open>
  For a scope whose statements assign text properties or raise, \<open>atomic_change\<close>
  does what its comments say. After an exception \<open>_dict\<close> has, by value, what
  \<open>_dict_old\<close> had before the scope, and the file is untouched. Without an exception
  the file is written exactly when \<open>_dict\<close> differs from \<open>_dict_old\<close>, it then
  holds \<open>_dict\<close> by value, and \<open>_dict_old\<close> becomes \<open>_dict\<close>.
\<close>

lemma atomic_change_text_only:
  assumes "list_all text_only body" and "atomic_change body cfg = (cfg', e)"
    and "exec_body body cfg = (cfg1, e1)"
  shows "e = e1"
    and "e \<noteq> None \<Longrightarrow> dump cfg' = dump_old cfg \<and> on_disk cfg' = on_disk cfg
          \<and> dump_old cfg' = dump_old cfg"
    and "e = None \<Longrightarrow> dict_differs cfg1 \<Longrightarrow>
          on_disk cfg' = Some (dump cfg1) \<and> dump cfg' = dump cfg1 \<and> dump_old cfg' = dump cfg1"
    and "e = None \<Longrightarrow> \<not> dict_differs cfg1 \<Longrightarrow> cfg' = cfg1 \<and> on_disk cfg' = on_disk cfg"
proof -
  note k = exec_body_text_only [OF assms(1,3)]
  show "e = e1" using assms(2,3) by (auto simp: atomic_change_def split: option.splits)
  show "e \<noteq> None \<Longrightarrow> dump cfg' = dump_old cfg \<and> on_disk cfg' = on_disk cfg
          \<and> dump_old cfg' = dump_old cfg"
    using assms(2,3) k
    by (auto simp: atomic_change_def dump_def dump_old_def deref_objects split: option.splits)
  show "e = None \<Longrightarrow> dict_differs cfg1 \<Longrightarrow>
          on_disk cfg' = Some (dump cfg1) \<and> dump cfg' = dump cfg1 \<and> dump_old cfg' = dump cfg1"
    using assms(2,3)
    by (auto simp: atomic_change_def commit_def dump_def dump_old_def deref_objects
        split: option.splits)
  show "e = None \<Longrightarrow> \<not> dict_differs cfg1 \<Longrightarrow> cfg' = cfg1 \<and> on_disk cfg' = on_disk cfg"
    using assms(2,3) k
    by (auto simp: atomic_change_def commit_def split: option.splits)
qed

section \<open>Unknown critical attributes\<close>

text \<open>
  A segment whose name is not \<open>addr\<close>, \<open>prefer-encrypt\<close> or \<open>keydata\<close> and does
  not start with an underscore never lets the parser return a result without error,
  whatever the other segments are: the parser returns an error result or raises.
\<close>

lemma unknown_critical_attr_never_accepted:
  assumes "x \<in> set parts"
    and "map py_strip (py_split1 CHR ''='' x) = [name, val]"
    and "name \<noteq> ''addr''" and "name \<noteq> ''prefer-encrypt''" and "name \<noteq> ''keydata''"
    and "name = [] \<or> hd name \<noteq> CHR ''_''"
    and "parse_parts parts rd ea = Inr r"
  shows "error r \<noteq> None"
proof
  assume ok: "error r = None"
  from assms(1,7) ok show False
  proof (induction parts arbitrary: rd ea)
    case Nil
    then show ?case by simp
  next
    case (Cons y ys)
    from parse_parts_step [OF Cons.prems(2,3)] obtain rd1 ea1 where
      s: "\<And>zs. parse_parts (y # zs) rd ea = parse_parts zs rd1 ea1" by blast
    show ?case
    proof (cases "x = y")
      case True
      from assms(2-6) True Cons.prems(2,3) show False
        by (cases name) (auto simp: ac_error_def)
    next
      case False
      with Cons.prems(1) have "x \<in> set ys" by simp
      moreover from s [of ys] Cons.prems(2) have "parse_parts ys rd1 ea1 = Inr r" by simp
      ultimately show False using Cons.IH Cons.prems(3) by blast
    qed
  qed
qed

end
